theory Spec2Isabelle
  imports Main "HOL-Library.Word" "HOL-Library.Sublist"
begin

section \<open>JavaScript strings\<close>

text \<open>
  A JavaScript string is a sequence of UTF-16 code units, and \<open>length\<close>, \<open>substring\<close>,
  \<open>startsWith\<close> and the regular expressions of \<open>build.js\<close> (none has the \<open>u\<close> flag) all
  count and match code units. A string is therefore a list of 16-bit words; \<open>js\<close> turns an
  ASCII literal into such a list.
\<close>

type_synonym jschar = "16 word"
type_synonym js_string = "jschar list"

definition js :: "string \<Rightarrow> js_string" where
  "js s = map of_char s"

abbreviation hyphen :: jschar where "hyphen \<equiv> 0x2D"
abbreviation amp :: jschar where "amp \<equiv> 0x26"
abbreviation lt :: jschar where "lt \<equiv> 0x3C"
abbreviation gt :: jschar where "gt \<equiv> 0x3E"
abbreviation dquote :: jschar where "dquote \<equiv> 0x22"
abbreviation squote :: jschar where "squote \<equiv> 0x27"
abbreviation slash :: jschar where "slash \<equiv> 0x2F"

text \<open>
  The class \<open>\s\<close> of a regular expression and the characters \<open>trim\<close> strips are the same
  set in ECMAScript: WhiteSpace (TAB, VT, FF, SP, NBSP, ZWNBSP and the Unicode space
  separators) together with LineTerminator (LF, CR, LS, PS).
\<close>

definition is_whitespace :: "jschar \<Rightarrow> bool" where
  "is_whitespace c =
     (c = 0x09 \<or> c = 0x0A \<or> c = 0x0B \<or> c = 0x0C \<or> c = 0x0D \<or> c = 0x20 \<or> c = 0xA0
      \<or> c = 0x1680 \<or> (0x2000 \<le> c \<and> c \<le> 0x200A) \<or> c = 0x2028 \<or> c = 0x2029
      \<or> c = 0x202F \<or> c = 0x205F \<or> c = 0x3000 \<or> c = 0xFEFF)"

text \<open>The class \<open>\w\<close> without the \<open>u\<close> and \<open>i\<close> flags: \<open>[A-Za-z0-9_]\<close>.\<close>

definition is_word_char :: "jschar \<Rightarrow> bool" where
  "is_word_char c =
     ((0x41 \<le> c \<and> c \<le> 0x5A) \<or> (0x61 \<le> c \<and> c \<le> 0x7A) \<or> (0x30 \<le> c \<and> c \<le> 0x39)
      \<or> c = 0x5F)"

text \<open>
  \<open>String.prototype.toLowerCase\<close>. The ASCII and Latin-1 capital letters move up by
  \<open>0x20\<close>; U+0130 becomes \<open>i\<close> followed by U+0307 and U+212A (the Kelvin sign) becomes
  \<open>k\<close>: these two are the only characters outside ASCII whose lower case contains an ASCII
  character. Every other code unit is kept. JavaScript also changes capital letters
  beyond U+00FF (Greek, Cyrillic, ...), into letters that are again beyond U+00FF; such
  a letter is neither a word character nor whitespace before or after the change.
\<close>

definition lower_unit :: "jschar \<Rightarrow> js_string" where
  "lower_unit c =
     (if 0x41 \<le> c \<and> c \<le> 0x5A then [c + 0x20]
      else if 0xC0 \<le> c \<and> c \<le> 0xDE \<and> c \<noteq> 0xD7 then [c + 0x20]
      else if c = 0x130 then [0x69, 0x307]
      else if c = 0x212A then [0x6B]
      else [c])"

definition toLowerCase :: "js_string \<Rightarrow> js_string" where
  "toLowerCase s = concat (map lower_unit s)"

definition trim :: "js_string \<Rightarrow> js_string" where
  "trim s = rev (dropWhile is_whitespace (rev (dropWhile is_whitespace s)))"

definition startsWith :: "js_string \<Rightarrow> js_string \<Rightarrow> bool" where
  "startsWith s p = (take (length p) s = p)"

text \<open>\<open>s.includes(p)\<close>: \<open>p\<close> occurs in \<open>s\<close> as a substring.\<close>

fun str_includes :: "js_string \<Rightarrow> js_string \<Rightarrow> bool" where
  "str_includes [] p = (p = [])"
| "str_includes (c # cs) p = (startsWith (c # cs) p \<or> str_includes cs p)"

text \<open>\<open>s.substring(0, n)\<close> is \<open>take n s\<close>.\<close>

text \<open>
  \<open>s.replace(p, r)\<close> with a string pattern replaces the first occurrence of \<open>p\<close> only
  (the replacement strings of \<open>build.js\<close> contain no \<open>$\<close>).
\<close>

fun replace_first :: "js_string \<Rightarrow> js_string \<Rightarrow> js_string \<Rightarrow> js_string" where
  "replace_first p r [] = (if p = [] then r else [])"
| "replace_first p r (c # cs) =
     (if startsWith (c # cs) p then r @ drop (length p) (c # cs)
      else c # replace_first p r cs)"

text \<open>
  \<open>s.replace(/C+/g, r)\<close> for a character class \<open>C\<close>: every maximal run of characters of
  the class is replaced by \<open>r\<close>.
\<close>

function replace_runs :: "(jschar \<Rightarrow> bool) \<Rightarrow> js_string \<Rightarrow> js_string \<Rightarrow> js_string" where
  "replace_runs C r [] = []"
| "replace_runs C r (c # cs) =
     (if C c then r @ replace_runs C r (dropWhile C cs) else c # replace_runs C r cs)"
  by pat_completeness auto
termination
  by (relation "measure (\<lambda>(C, r, s). length s)")
     (auto simp: length_dropWhile_le less_Suc_eq_le)

section \<open>slugify\<close>

text \<open>
  \<^verbatim>\<open>
  function slugify(text) {
    return text
      .toLowerCase()
      .replace(/[^\w\s-]/g, '')
      .replace(/\s+/g, '-')
      .replace(/-+/g, '-')
      .trim();
  }
  \<close>
  Deleting every match of the negated class \<open>[^\w\s-]\<close> keeps exactly the characters
  of \<open>[\w\s-]\<close>.
\<close>

definition slug_keep :: "jschar \<Rightarrow> bool" where
  "slug_keep c = (is_word_char c \<or> is_whitespace c \<or> c = hyphen)"

definition slugify :: "js_string \<Rightarrow> js_string" where
  "slugify text =
     trim (replace_runs (\<lambda>c. c = hyphen) (js ''-'')
       (replace_runs is_whitespace (js ''-'')
         (filter slug_keep (toLowerCase text))))"

section \<open>escapeHtml\<close>

text \<open>
  \<^verbatim>\<open>
  function escapeHtml(text) {
    const map = { '&': '&amp;', '<': '&lt;', '>': '&gt;', '"': '&quot;', "'": '&#039;' };
    return text.replace(/[&<>"']/g, m => map[m]);
  }
  \<close>
  Each character of the class is replaced by what the object \<open>map\<close> holds for it; a key
  that \<open>map\<close> lacked would read as \<open>undefined\<close>.
\<close>

definition html_special :: "jschar \<Rightarrow> bool" where
  "html_special c = (c = amp \<or> c = lt \<or> c = gt \<or> c = dquote \<or> c = squote)"

definition entity_map :: "jschar \<rightharpoonup> js_string" where
  "entity_map =
     [amp \<mapsto> js ''&amp;'', lt \<mapsto> js ''&lt;'', gt \<mapsto> js ''&gt;'',
      dquote \<mapsto> js ''&quot;'', squote \<mapsto> js ''&#039;'']"

definition escape_char :: "jschar \<Rightarrow> js_string" where
  "escape_char c =
     (if html_special c
      then (case entity_map c of Some e \<Rightarrow> e | None \<Rightarrow> js ''undefined'')
      else [c])"

definition escapeHtml :: "js_string \<Rightarrow> js_string" where
  "escapeHtml text = concat (map escape_char text)"

definition entities :: "js_string list" where
  "entities = [js ''&amp;'', js ''&lt;'', js ''&gt;'', js ''&quot;'', js ''&#039;'']"

section \<open>The data model\<close>

text \<open>
  A collection as \<open>parseLinksFile\<close> builds it, and the metadata record
  \<open>scrapeMetadata\<close> returns (its field \<open>image\<close> is \<open>image_url\<close> here). The orchestrator
  later attaches the \<open>metadata\<close> array to the collection object.
\<close>

record collection =
  name :: js_string
  slug :: js_string
  links :: "js_string list"

record link_metadata =
  url :: js_string
  title :: js_string
  description :: js_string
  image_url :: js_string
  success :: bool

record fetched_collection = collection +
  metadata :: "link_metadata list"

text \<open>
  What the program can throw: the \<open>TypeError\<close> of \<open>new URL\<close> on a string that is not a
  URL, the \<open>URIError\<close> of \<open>encodeURIComponent\<close>, a rejected fetch, the \<open>Error\<close> thrown
  for a response that is not ok (with its status), and a file that is not there.
\<close>

datatype js_error =
  InvalidURL | URIError | FetchError | HttpError nat | ENOENT js_string

section \<open>parseLinksFile\<close>

text \<open>\<open>content.split('\n')\<close>: the pieces between the separators, one more than separators.\<close>

fun split_on :: "jschar \<Rightarrow> js_string \<Rightarrow> js_string list" where
  "split_on sep [] = [[]]"
| "split_on sep (c # cs) =
     (if c = sep then [] # split_on sep cs
      else (case split_on sep cs of
              [] \<Rightarrow> [[c]]
            | l # ls \<Rightarrow> (c # l) # ls))"

text \<open>
  The body of the loop over the lines, on the pair of \<open>collections\<close> and
  \<open>currentCollection\<close> (\<open>None\<close> for \<open>null\<close>).
  \<^verbatim>\<open>
    const trimmed = line.trim();
    if (trimmed.startsWith('# ')) {
      if (currentCollection) { collections.push(currentCollection); }
      const name = trimmed.substring(2).trim();
      currentCollection = { name: name, slug: slugify(name), links: [] };
    }
    else if (trimmed.startsWith('http://') || trimmed.startsWith('https://')) {
      if (currentCollection) { currentCollection.links.push(trimmed); }
    }
  \<close>
\<close>

definition parse_line ::
  "collection list \<times> collection option \<Rightarrow> js_string \<Rightarrow> collection list \<times> collection option"
where
  "parse_line st line =
     (let collections = fst st; currentCollection = snd st; trimmed = trim line in
      if startsWith trimmed (js ''# '') then
        (let pushed = (case currentCollection of
                         Some c \<Rightarrow> collections @ [c]
                       | None \<Rightarrow> collections);
             nm = trim (drop 2 trimmed)
         in (pushed, Some \<lparr> name = nm, slug = slugify nm, links = [] \<rparr>))
      else if startsWith trimmed (js ''http://'') \<or> startsWith trimmed (js ''https://'') then
        (case currentCollection of
           Some c \<Rightarrow> (collections, Some (c \<lparr> links := links c @ [trimmed] \<rparr>))
         | None \<Rightarrow> (collections, None))
      else (collections, currentCollection))"

text \<open>
  \<open>parseLinksFile\<close> on the text of the file (reading it is the orchestrator's step
  here): the loop, then the last open collection is pushed.
\<close>

definition parseLinksFile :: "js_string \<Rightarrow> collection list" where
  "parseLinksFile content =
     (let st = foldl parse_line ([], None) (split_on 0x0A content) in
      case snd st of
        Some c \<Rightarrow> fst st @ [c]
      | None \<Rightarrow> fst st)"

section \<open>The platform: URLs, the network, the parsed document\<close>

text \<open>
  \<open>new URL(url)\<close> is the platform's URL parser. It is a parameter \<open>new_URL\<close> of the
  functions below: \<open>None\<close> when the constructor throws its \<open>TypeError\<close>, otherwise the
  three properties \<open>build.js\<close> reads.
\<close>

record url_obj =
  protocol :: js_string
  hostname :: js_string
  origin :: js_string

type_synonym url_parser = "js_string \<Rightarrow> url_obj option"

text \<open>
  What the selectors of \<open>scrapeMetadata\<close> and \<open>findFirstImage\<close> read from the document
  cheerio has parsed: \<open>attr\<close> gives a string or \<open>undefined\<close> (\<open>None\<close>), \<open>$('title').text()\<close>
  a string. For an \<open>img\<close> element, \<open>img_width\<close> and \<open>img_height\<close> are what \<open>parseInt\<close>
  makes of the attribute (\<open>None\<close> for \<open>NaN\<close>).
\<close>

record img_element =
  src :: "js_string option"
  data_src :: "js_string option"
  img_width :: "int option"
  img_height :: "int option"

record page =
  og_title :: "js_string option"
  twitter_title :: "js_string option"
  title_text :: js_string
  og_description :: "js_string option"
  twitter_description :: "js_string option"
  meta_description :: "js_string option"
  og_image :: "js_string option"
  twitter_image :: "js_string option"
  imgs :: "img_element list"

text \<open>
  The outcome of one \<open>fetch\<close> with the reading of its body: the promise is rejected
  (network error, timeout, a string that is no URL), or there is a response with a
  status and a document. \<open>response.ok\<close> is a status from 200 to 299.
\<close>

datatype fetch_outcome = Rejected | Response nat page

definition response_ok :: "nat \<Rightarrow> bool" where
  "response_ok status = (200 \<le> status \<and> status \<le> 299)"

text \<open>
  A value that is a string or \<open>undefined\<close>/\<open>null\<close> is truthy when it is a non-empty
  string; \<open>a || b\<close> is \<open>a\<close> when \<open>a\<close> is truthy and \<open>b\<close> otherwise.
\<close>

definition truthy :: "js_string option \<Rightarrow> bool" where
  "truthy v = (case v of None \<Rightarrow> False | Some s \<Rightarrow> s \<noteq> [])"

definition or_js :: "js_string option \<Rightarrow> js_string option \<Rightarrow> js_string option" where
  "or_js a b = (if truthy a then a else b)"

section \<open>encodeURIComponent\<close>

text \<open>
  The unreserved characters \<open>A-Z a-z 0-9 - _ . ! ~ * ' ( )\<close> stay; every other
  character is written as the bytes of its UTF-8 encoding, each as \<open>%XX\<close> with capital
  hexadecimal digits. A surrogate that has no partner raises \<open>URIError\<close>.
\<close>

definition uri_unreserved :: "jschar \<Rightarrow> bool" where
  "uri_unreserved c =
     ((0x41 \<le> c \<and> c \<le> 0x5A) \<or> (0x61 \<le> c \<and> c \<le> 0x7A) \<or> (0x30 \<le> c \<and> c \<le> 0x39)
      \<or> c = 0x2D \<or> c = 0x5F \<or> c = 0x2E \<or> c = 0x21 \<or> c = 0x7E \<or> c = 0x2A
      \<or> c = 0x27 \<or> c = 0x28 \<or> c = 0x29)"

definition hex_digit :: "nat \<Rightarrow> jschar" where
  "hex_digit n = (if n < 10 then of_nat (48 + n) else of_nat (55 + n))"

definition percent_byte :: "nat \<Rightarrow> js_string" where
  "percent_byte b = [0x25, hex_digit (b div 16), hex_digit (b mod 16)]"

definition utf8_bytes :: "nat \<Rightarrow> nat list" where
  "utf8_bytes cp =
     (if cp < 0x80 then [cp]
      else if cp < 0x800 then [0xC0 + cp div 64, 0x80 + cp mod 64]
      else if cp < 0x10000 then
        [0xE0 + cp div 4096, 0x80 + (cp div 64) mod 64, 0x80 + cp mod 64]
      else
        [0xF0 + cp div 262144, 0x80 + (cp div 4096) mod 64, 0x80 + (cp div 64) mod 64,
         0x80 + cp mod 64])"

definition percent_encode :: "nat \<Rightarrow> js_string" where
  "percent_encode cp = concat (map percent_byte (utf8_bytes cp))"

fun encodeURIComponent :: "js_string \<Rightarrow> js_error + js_string" where
  "encodeURIComponent [] = Inr []"
| "encodeURIComponent (c # cs) =
     (if uri_unreserved c then
        (case encodeURIComponent cs of Inl e \<Rightarrow> Inl e | Inr r \<Rightarrow> Inr (c # r))
      else if 0xDC00 \<le> c \<and> c \<le> 0xDFFF then Inl URIError
      else if 0xD800 \<le> c \<and> c \<le> 0xDBFF then
        (case cs of
           [] \<Rightarrow> Inl URIError
         | d # ds \<Rightarrow>
             if 0xDC00 \<le> d \<and> d \<le> 0xDFFF then
               (case encodeURIComponent ds of
                  Inl e \<Rightarrow> Inl e
                | Inr r \<Rightarrow>
                    Inr (percent_encode
                           ((unat c - 0xD800) * 0x400 + (unat d - 0xDC00) + 0x10000) @ r))
             else Inl URIError)
      else
        (case encodeURIComponent cs of
           Inl e \<Rightarrow> Inl e
         | Inr r \<Rightarrow> Inr (percent_encode (unat c) @ r)))"

section \<open>scrapeMetadata, first version of the file\<close>

text \<open>
  \<open>build.js\<close> holds the program twice. The first version (lines 1 to 360) has
  \<open>isGenericDescription\<close>, \<open>findFirstImage\<close> and a placeholder image; its functions carry
  the suffix \<open>A\<close> here. The second version (from line 361) has the suffix \<open>B\<close>.
\<close>

text \<open>
  \<^verbatim>\<open>
  function isGenericDescription(description, url) {
    if (!description) return true;
    const genericPhrases = [ ... ];
    const lowerDesc = description.toLowerCase();
    if (url.includes('youtube.com') && genericPhrases.some(phrase => lowerDesc.includes(phrase)))
      return true;
    if (description.length < 10) return true;
    return false;
  }
  \<close>
\<close>

definition genericPhrases :: "js_string list" where
  "genericPhrases =
     [js ''enjoy the videos and music you love'',
      js ''share it all with friends'',
      js ''youtube'',
      js ''upload original content'',
      js ''share videos with friends, family, and the world'']"

definition isGenericDescription :: "js_string \<Rightarrow> js_string \<Rightarrow> bool" where
  "isGenericDescription descr u =
     (if descr = [] then True
      else if str_includes u (js ''youtube.com'')
              \<and> list_ex (\<lambda>phrase. str_includes (toLowerCase descr) phrase) genericPhrases
      then True
      else if length descr < 10 then True
      else False)"

text \<open>
  One turn of the loop of \<open>findFirstImage\<close>: \<open>None\<close> where the loop continues with the
  next image, the absolute address where it returns.
  \<^verbatim>\<open>
    let src = img.attr('src') || img.attr('data-src');
    if (!src) continue;
    const width = parseInt(img.attr('width')) || 0;
    const height = parseInt(img.attr('height')) || 0;
    if (width > 0 && height > 0 && (width < 100 || height < 100)) continue;
    if (src.includes('icon') || src.includes('logo') || src.includes('avatar')) continue;
    if (src.startsWith('//')) { src = 'https:' + src; }
    else if (src.startsWith('/')) { src = urlObj.origin + src; }
    else if (!src.startsWith('http')) { src = urlObj.origin + '/' + src; }
    if (src.startsWith('http://')) { src = src.replace('http://', 'https://'); }
    return src;
  \<close>
\<close>

definition image_candidate :: "url_obj \<Rightarrow> img_element \<Rightarrow> js_string option" where
  "image_candidate urlObj img =
     (case or_js (src img) (data_src img) of
        None \<Rightarrow> None
      | Some s \<Rightarrow>
          (let width = (case img_width img of None \<Rightarrow> 0 | Some w \<Rightarrow> w);
               height = (case img_height img of None \<Rightarrow> 0 | Some h \<Rightarrow> h);
               absolute =
                 (if startsWith s (js ''//'') then js ''https:'' @ s
                  else if startsWith s (js ''/'') then origin urlObj @ s
                  else if \<not> startsWith s (js ''http'') then origin urlObj @ js ''/'' @ s
                  else s)
           in if s = [] then None
              else if width > 0 \<and> height > 0 \<and> (width < 100 \<or> height < 100) then None
              else if str_includes s (js ''icon'') \<or> str_includes s (js ''logo'')
                      \<or> str_includes s (js ''avatar'') then None
              else if startsWith absolute (js ''http://'')
                   then Some (replace_first (js ''http://'') (js ''https://'') absolute)
              else Some absolute))"

fun first_candidate :: "url_obj \<Rightarrow> img_element list \<Rightarrow> js_string option" where
  "first_candidate urlObj [] = None"
| "first_candidate urlObj (img # rest) =
     (case image_candidate urlObj img of
        Some s \<Rightarrow> Some s
      | None \<Rightarrow> first_candidate urlObj rest)"

text \<open>\<open>findFirstImage\<close> builds \<open>new URL(url)\<close> before the loop; \<open>None\<close> is its \<open>null\<close>.\<close>

definition findFirstImage :: "url_parser \<Rightarrow> page \<Rightarrow> js_string \<Rightarrow> js_error + js_string option" where
  "findFirstImage new_URL p u =
     (case new_URL u of
        None \<Rightarrow> Inl InvalidURL
      | Some urlObj \<Rightarrow> Inr (first_candidate urlObj (imgs p)))"

text \<open>
  The fallback chains of \<open>scrapeMetadata\<close> (the same in both versions). The last operand
  of the title chain, \<open>new URL(url).hostname\<close>, is evaluated only when the three before
  it are falsy.
  \<^verbatim>\<open>
    let title = $('meta[property="og:title"]').attr('content') ||
                $('meta[name="twitter:title"]').attr('content') ||
                $('title').text() ||
                new URL(url).hostname;
    let description = $('meta[property="og:description"]').attr('content') ||
                     $('meta[name="twitter:description"]').attr('content') ||
                     $('meta[name="description"]').attr('content') ||
                     '';
    let image = $('meta[property="og:image"]').attr('content') ||
                $('meta[name="twitter:image"]').attr('content') ||
                '';
  \<close>
\<close>

definition extract_title :: "url_parser \<Rightarrow> js_string \<Rightarrow> page \<Rightarrow> js_error + js_string" where
  "extract_title new_URL u p =
     (case or_js (og_title p) (or_js (twitter_title p) (Some (title_text p))) of
        Some (c # cs) \<Rightarrow> Inr (c # cs)
      | _ \<Rightarrow>
          (case new_URL u of
             None \<Rightarrow> Inl InvalidURL
           | Some urlObj \<Rightarrow> Inr (hostname urlObj)))"

definition extract_description :: "page \<Rightarrow> js_string" where
  "extract_description p =
     (case or_js (og_description p)
             (or_js (twitter_description p) (or_js (meta_description p) (Some []))) of
        Some d \<Rightarrow> d
      | None \<Rightarrow> [])"

definition extract_image :: "page \<Rightarrow> js_string" where
  "extract_image p =
     (case or_js (og_image p) (or_js (twitter_image p) (Some [])) of
        Some i \<Rightarrow> i
      | None \<Rightarrow> [])"

text \<open>
  \<^verbatim>\<open>
    if (image && !image.startsWith('http')) {
      const urlObj = new URL(url);
      if (image.startsWith('//')) { image = 'https:' + image; }
      else if (image.startsWith('/')) { image = urlObj.origin + image; }
      else { image = urlObj.origin + '/' + image; }
    }
  \<close>
  The image is a string or the \<open>null\<close> of \<open>findFirstImage\<close>.
\<close>

definition absolute_image_A ::
  "url_parser \<Rightarrow> js_string \<Rightarrow> js_string option \<Rightarrow> js_error + js_string option"
where
  "absolute_image_A new_URL u img =
     (case img of
        None \<Rightarrow> Inr None
      | Some s \<Rightarrow>
          if s \<noteq> [] \<and> \<not> startsWith s (js ''http'') then
            (case new_URL u of
               None \<Rightarrow> Inl InvalidURL
             | Some urlObj \<Rightarrow>
                 if startsWith s (js ''//'') then Inr (Some (js ''https:'' @ s))
                 else if startsWith s (js ''/'') then Inr (Some (origin urlObj @ s))
                 else Inr (Some (origin urlObj @ js ''/'' @ s)))
          else Inr (Some s))"

text \<open>
  \<^verbatim>\<open>
    if (image && image.startsWith('http://')) {
      image = image.replace('http://', 'https://');
    }
  \<close>
\<close>

definition force_https :: "js_string option \<Rightarrow> js_string option" where
  "force_https img =
     (case img of
        None \<Rightarrow> None
      | Some s \<Rightarrow>
          if s \<noteq> [] \<and> startsWith s (js ''http://'')
          then Some (replace_first (js ''http://'') (js ''https://'') s)
          else Some s)"

text \<open>
  The placeholder of the first version, for a host name:
  \<^verbatim>\<open>`https://via.placeholder.com/400x200/f5f5f5/666666?text=${encodeURIComponent(hostname)}`\<close>
\<close>

definition placeholder_image :: "js_string \<Rightarrow> js_error + js_string" where
  "placeholder_image host =
     (case encodeURIComponent host of
        Inl e \<Rightarrow> Inl e
      | Inr t \<Rightarrow> Inr (js ''https://via.placeholder.com/400x200/f5f5f5/666666?text='' @ t))"

text \<open>
  \<^verbatim>\<open>
    if (!image) {
      const hostname = new URL(url).hostname.replace('www.', '');
      image = `https://via.placeholder.com/...?text=${encodeURIComponent(hostname)}`;
    }
  \<close>
\<close>

definition image_or_placeholder ::
  "url_parser \<Rightarrow> js_string \<Rightarrow> js_string option \<Rightarrow> js_error + js_string"
where
  "image_or_placeholder new_URL u img =
     (if truthy img then (case img of Some s \<Rightarrow> Inr s | None \<Rightarrow> Inr [])
      else
        (case new_URL u of
           None \<Rightarrow> Inl InvalidURL
         | Some urlObj \<Rightarrow>
             placeholder_image (replace_first (js ''www.'') [] (hostname urlObj))))"

text \<open>
  \<^verbatim>\<open>
    if (description && description.length > 200) {
      description = description.substring(0, 200) + '...';
    }
  \<close>
  (the second version tests \<open>description.length > 200\<close> alone, which is the same test
  on a string.)
\<close>

definition truncate_description :: "js_string \<Rightarrow> js_string" where
  "truncate_description descr =
     (if length descr > 200 then take 200 descr @ js ''...'' else descr)"

text \<open>
  The \<open>try\<close> block of the first version, from the outcome of the fetch on. Each
  \<open>Inl\<close> is an exception thrown inside the block.
\<close>

definition scrape_try_A ::
  "url_parser \<Rightarrow> js_string \<Rightarrow> fetch_outcome \<Rightarrow> js_error + link_metadata"
where
  "scrape_try_A new_URL u outcome =
     (case outcome of
        Rejected \<Rightarrow> Inl FetchError
      | Response status p \<Rightarrow>
          if \<not> response_ok status then Inl (HttpError status)
          else
            (case extract_title new_URL u p of
               Inl e \<Rightarrow> Inl e
             | Inr ttl \<Rightarrow>
                 (case (if extract_image p = [] then findFirstImage new_URL p u
                        else Inr (Some (extract_image p))) of
                    Inl e \<Rightarrow> Inl e
                  | Inr found \<Rightarrow>
                      (case absolute_image_A new_URL u found of
                         Inl e \<Rightarrow> Inl e
                       | Inr absolute \<Rightarrow>
                           (case image_or_placeholder new_URL u (force_https absolute) of
                              Inl e \<Rightarrow> Inl e
                            | Inr img \<Rightarrow>
                                (let descr =
                                   (if isGenericDescription (extract_description p) u then []
                                    else extract_description p)
                                 in Inr \<lparr> url = u,
                                          title = trim ttl,
                                          description = trim (truncate_description descr),
                                          image_url = img,
                                          success = True \<rparr>))))))"

text \<open>
  The \<open>catch\<close> block of the first version. It is not guarded itself: what it throws
  leaves \<open>scrapeMetadata\<close>.
  \<^verbatim>\<open>
    const hostname = new URL(url).hostname.replace('www.', '');
    return { url, title: hostname, description: '',
             image: `https://via.placeholder.com/...?text=${encodeURIComponent(hostname)}`,
             success: false };
  \<close>
\<close>

definition scrape_catch_A :: "url_parser \<Rightarrow> js_string \<Rightarrow> js_error + link_metadata" where
  "scrape_catch_A new_URL u =
     (case new_URL u of
        None \<Rightarrow> Inl InvalidURL
      | Some urlObj \<Rightarrow>
          (let host = replace_first (js ''www.'') [] (hostname urlObj) in
           case placeholder_image host of
             Inl e \<Rightarrow> Inl e
           | Inr img \<Rightarrow>
               Inr \<lparr> url = u, title = host, description = [], image_url = img,
                     success = False \<rparr>))"

definition scrapeMetadataA ::
  "url_parser \<Rightarrow> js_string \<Rightarrow> fetch_outcome \<Rightarrow> js_error + link_metadata"
where
  "scrapeMetadataA new_URL u outcome =
     (case scrape_try_A new_URL u outcome of
        Inr m \<Rightarrow> Inr m
      | Inl e \<Rightarrow> scrape_catch_A new_URL u)"

section \<open>scrapeMetadata, second version of the file\<close>

text \<open>
  \<^verbatim>\<open>
    if (image && !image.startsWith('http')) {
      const urlObj = new URL(url);
      if (image.startsWith('//')) { image = urlObj.protocol + image; }
      else if (image.startsWith('/')) { image = urlObj.origin + image; }
      else { image = urlObj.origin + '/' + image; }
    }
  \<close>
\<close>

definition absolute_image_B :: "url_parser \<Rightarrow> js_string \<Rightarrow> js_string \<Rightarrow> js_error + js_string" where
  "absolute_image_B new_URL u s =
     (if s \<noteq> [] \<and> \<not> startsWith s (js ''http'') then
        (case new_URL u of
           None \<Rightarrow> Inl InvalidURL
         | Some urlObj \<Rightarrow>
             if startsWith s (js ''//'') then Inr (protocol urlObj @ s)
             else if startsWith s (js ''/'') then Inr (origin urlObj @ s)
             else Inr (origin urlObj @ js ''/'' @ s))
      else Inr s)"

definition scrape_try_B ::
  "url_parser \<Rightarrow> js_string \<Rightarrow> fetch_outcome \<Rightarrow> js_error + link_metadata"
where
  "scrape_try_B new_URL u outcome =
     (case outcome of
        Rejected \<Rightarrow> Inl FetchError
      | Response status p \<Rightarrow>
          if \<not> response_ok status then Inl (HttpError status)
          else
            (case extract_title new_URL u p of
               Inl e \<Rightarrow> Inl e
             | Inr ttl \<Rightarrow>
                 (case absolute_image_B new_URL u (extract_image p) of
                    Inl e \<Rightarrow> Inl e
                  | Inr img \<Rightarrow>
                      Inr \<lparr> url = u,
                            title = trim ttl,
                            description = trim (truncate_description (extract_description p)),
                            image_url = img,
                            success = True \<rparr>)))"

text \<open>
  The \<open>catch\<close> block of the second version:
  \<^verbatim>\<open>
    return { url, title: new URL(url).hostname, description: '', image: '', success: false };
  \<close>
\<close>

definition scrape_catch_B :: "url_parser \<Rightarrow> js_string \<Rightarrow> js_error + link_metadata" where
  "scrape_catch_B new_URL u =
     (case new_URL u of
        None \<Rightarrow> Inl InvalidURL
      | Some urlObj \<Rightarrow>
          Inr \<lparr> url = u, title = hostname urlObj, description = [], image_url = [],
                success = False \<rparr>)"

definition scrapeMetadataB ::
  "url_parser \<Rightarrow> js_string \<Rightarrow> fetch_outcome \<Rightarrow> js_error + link_metadata"
where
  "scrapeMetadataB new_URL u outcome =
     (case scrape_try_B new_URL u outcome of
        Inr m \<Rightarrow> Inr m
      | Inl e \<Rightarrow> scrape_catch_B new_URL u)"

section \<open>The page renderer\<close>

text \<open>A number in a template literal is written in decimal.\<close>

function nat_to_string :: "nat \<Rightarrow> js_string" where
  "nat_to_string n =
     (if n < 10 then [of_nat (48 + n)]
      else nat_to_string (n div 10) @ [of_nat (48 + n mod 10)])"
  by pat_completeness auto
termination
  by (relation "measure id") auto

text \<open>The home page (the same text in both versions).\<close>

definition home_item :: "'a collection_scheme \<Rightarrow> js_string" where
  "home_item col =
       js ''\<newline>'' @
       js ''        <a href=\"'' @
       slug col @
       js ''.html\" class=\"collection-link\">\<newline>'' @
       js ''          <h2>'' @
       name col @
       js ''</h2>\<newline>'' @
       js ''          <span class=\"link-count\">'' @
       nat_to_string (length (links col)) @
       js '' resources</span>\<newline>'' @
       js ''        </a>\<newline>'' @
       js ''      ''"

definition generateHomePage :: "'a collection_scheme list \<Rightarrow> js_string" where
  "generateHomePage collections =
       js ''<!DOCTYPE html>\<newline>'' @
       js ''<html lang=\"en\">\<newline>'' @
       js ''<head>\<newline>'' @
       js ''  <meta charset=\"UTF-8\">\<newline>'' @
       js ''  <meta name=\"viewport\" content=\"width=device-width, initial-scale=1.0\">\<newline>'' @
       js ''  <title>Resource Collections</title>\<newline>'' @
       js ''  <link rel=\"stylesheet\" href=\"style.css\">\<newline>'' @
       js ''</head>\<newline>'' @
       js ''<body>\<newline>'' @
       js ''  <div class=\"container\">\<newline>'' @
       js ''    <header>\<newline>'' @
       js ''      <h1>Resource Collections</h1>\<newline>'' @
       js ''    </header>\<newline>'' @
       js ''    \<newline>'' @
       js ''    <div class=\"collections-list\">\<newline>'' @
       js ''      '' @
       concat (map home_item collections) @
       js ''\<newline>'' @
       js ''    </div>\<newline>'' @
       js ''  </div>\<newline>'' @
       js ''</body>\<newline>'' @
       js ''</html>''"

text \<open>
  The card of the first version.
  \<^verbatim>\<open>
    const isYouTube = meta.url.includes('youtube.com') || meta.url.includes('youtu.be');
    const displayUrl = meta.url.replace(/^https?:\/\/(www\.)?/, '').replace(/\/$/, '');
  \<close>
  The first expression deletes \<open>http://\<close> or \<open>https://\<close> at the start and a \<open>www.\<close> that
  follows it; the second deletes a slash that ends the string.
\<close>

definition isYouTube :: "link_metadata \<Rightarrow> bool" where
  "isYouTube m =
     (str_includes (url m) (js ''youtube.com'') \<or> str_includes (url m) (js ''youtu.be''))"

definition strip_www :: "js_string \<Rightarrow> js_string" where
  "strip_www s = (if startsWith s (js ''www.'') then drop 4 s else s)"

definition strip_protocol :: "js_string \<Rightarrow> js_string" where
  "strip_protocol s =
     (if startsWith s (js ''https://'') then strip_www (drop 8 s)
      else if startsWith s (js ''http://'') then strip_www (drop 7 s)
      else s)"

definition strip_final_slash :: "js_string \<Rightarrow> js_string" where
  "strip_final_slash s = (if s \<noteq> [] \<and> last s = slash then butlast s else s)"

definition displayUrl :: "link_metadata \<Rightarrow> js_string" where
  "displayUrl m = strip_final_slash (strip_protocol (url m))"

definition card_A :: "link_metadata \<Rightarrow> js_string" where
  "card_A m =
       js ''\<newline>'' @
       js ''    <a href=\"'' @
       url m @
       js ''\" target=\"_blank\" rel=\"noopener noreferrer\" class=\"card\">\<newline>'' @
       js ''      <div class=\"card-image\" style=\"background-image: url('' @
       [squote] @
       image_url m @
       [squote] @
       js '')\"></div>\<newline>'' @
       js ''      <div class=\"card-content\">\<newline>'' @
       js ''        <h3 class=\"card-title\">'' @
       escapeHtml (title m) @
       js ''</h3>\<newline>'' @
       js ''        '' @
       (if \<not> isYouTube m
        then js ''<p class=\"card-url\">'' @ escapeHtml (displayUrl m) @ js ''</p>''
        else []) @
       js ''\<newline>'' @
       js ''      </div>\<newline>'' @
       js ''    </a>\<newline>'' @
       js ''  ''"

definition generateCollectionPageA :: "'a collection_scheme \<Rightarrow> link_metadata list \<Rightarrow> js_string" where
  "generateCollectionPageA c allMetadata =
     (let cards = concat (map card_A allMetadata) in
       js ''<!DOCTYPE html>\<newline>'' @
       js ''<html lang=\"en\">\<newline>'' @
       js ''<head>\<newline>'' @
       js ''  <meta charset=\"UTF-8\">\<newline>'' @
       js ''  <meta name=\"viewport\" content=\"width=device-width, initial-scale=1.0\">\<newline>'' @
       js ''  <title>'' @
       name c @
       js ''</title>\<newline>'' @
       js ''  <link rel=\"stylesheet\" href=\"style.css\">\<newline>'' @
       js ''</head>\<newline>'' @
       js ''<body>\<newline>'' @
       js ''  <div class=\"container\">\<newline>'' @
       js ''    <header>\<newline>'' @
       js ''      <a href=\"index.html\" class=\"back-link\">'' @
       [0x2190] @
       js '' Back to Collections</a>\<newline>'' @
       js ''      <h1>'' @
       name c @
       js ''</h1>\<newline>'' @
       js ''    </header>\<newline>'' @
       js ''    \<newline>'' @
       js ''    <div class=\"cards-grid\">\<newline>'' @
       js ''      '' @
       cards @
       js ''\<newline>'' @
       js ''    </div>\<newline>'' @
       js ''  </div>\<newline>'' @
       js ''</body>\<newline>'' @
       js ''</html>'')"

text \<open>The card and the page of the second version.\<close>

definition card_B :: "link_metadata \<Rightarrow> js_string" where
  "card_B m =
       js ''\<newline>'' @
       js ''    <a href=\"'' @
       url m @
       js ''\" target=\"_blank\" rel=\"noopener noreferrer\" class=\"card\">\<newline>'' @
       js ''      '' @
       (if image_url m \<noteq> []
        then js ''<div class=\"card-image\" style=\"background-image: url('' @ [squote] @
             image_url m @ [squote] @ js '')\"></div>''
        else js ''<div class=\"card-image card-no-image\"></div>'') @
       js ''\<newline>'' @
       js ''      <div class=\"card-content\">\<newline>'' @
       js ''        <h3 class=\"card-title\">'' @
       escapeHtml (title m) @
       js ''</h3>\<newline>'' @
       js ''        '' @
       (if description m \<noteq> []
        then js ''<p class=\"card-description\">'' @ escapeHtml (description m) @ js ''</p>''
        else []) @
       js ''\<newline>'' @
       js ''      </div>\<newline>'' @
       js ''    </a>\<newline>'' @
       js ''  ''"

definition generateCollectionPageB :: "'a collection_scheme \<Rightarrow> link_metadata list \<Rightarrow> js_string" where
  "generateCollectionPageB c allMetadata =
     (let cards = concat (map card_B allMetadata) in
       js ''<!DOCTYPE html>\<newline>'' @
       js ''<html lang=\"en\">\<newline>'' @
       js ''<head>\<newline>'' @
       js ''  <meta charset=\"UTF-8\">\<newline>'' @
       js ''  <meta name=\"viewport\" content=\"width=device-width, initial-scale=1.0\">\<newline>'' @
       js ''  <title>'' @
       name c @
       js ''</title>\<newline>'' @
       js ''  <link rel=\"stylesheet\" href=\"style.css\">\<newline>'' @
       js ''</head>\<newline>'' @
       js ''<body>\<newline>'' @
       js ''  <div class=\"container\">\<newline>'' @
       js ''    <header>\<newline>'' @
       js ''      <a href=\"index.html\" class=\"back-link\">'' @
       [0x201A] @
       [0xDC] @
       [0xEA] @
       js '' Back to Collections</a>\<newline>'' @
       js ''      <h1>'' @
       name c @
       js ''</h1>\<newline>'' @
       js ''    </header>\<newline>'' @
       js ''    \<newline>'' @
       js ''    <div class=\"cards-grid\">\<newline>'' @
       js ''      '' @
       cards @
       js ''\<newline>'' @
       js ''    </div>\<newline>'' @
       js ''  </div>\<newline>'' @
       js ''</body>\<newline>'' @
       js ''</html>'')"

section \<open>The build orchestrator\<close>

text \<open>
  The files are a map from a path to the text of the file, and the network gives the
  outcome of the \<open>n\<close>-th request of the run, made to a given address. The orchestrator
  is the same text in both versions; \<open>scrape\<close> and \<open>render\<close> are the version's
  \<open>scrapeMetadata\<close> and \<open>generateCollectionPage\<close>. Console output and the pause of
  500 ms after each request are left out.
\<close>

type_synonym file_system = "js_string \<rightharpoonup> js_string"
type_synonym network = "nat \<Rightarrow> js_string \<Rightarrow> fetch_outcome"
type_synonym scraper = "js_string \<Rightarrow> fetch_outcome \<Rightarrow> js_error + link_metadata"
type_synonym renderer = "fetched_collection \<Rightarrow> link_metadata list \<Rightarrow> js_string"

text \<open>
  The inner loop, with the array \<open>metadata\<close> so far and the number of requests made:
  \<^verbatim>\<open>
    for (const url of collection.links) {
      const meta = await scrapeMetadata(url);
      metadata.push(meta);
      await new Promise(resolve => setTimeout(resolve, 500));
    }
  \<close>
  An exception that leaves \<open>scrapeMetadata\<close> leaves the loop and \<open>build\<close>.
\<close>

fun scrape_links ::
  "scraper \<Rightarrow> network \<Rightarrow> nat \<Rightarrow> link_metadata list \<Rightarrow> js_string list
     \<Rightarrow> js_error + (link_metadata list \<times> nat)"
where
  "scrape_links scrape net n acc [] = Inr (acc, n)"
| "scrape_links scrape net n acc (u # us) =
     (case scrape u (net n u) of
        Inl e \<Rightarrow> Inl e
      | Inr meta \<Rightarrow> scrape_links scrape net (Suc n) (acc @ [meta]) us)"

text \<open>
  The outer loop: \<open>collection.metadata = metadata\<close> for each collection in turn.
\<close>

fun fetch_pass ::
  "scraper \<Rightarrow> network \<Rightarrow> nat \<Rightarrow> collection list \<Rightarrow> js_error + fetched_collection list"
where
  "fetch_pass scrape net n [] = Inr []"
| "fetch_pass scrape net n (c # cs) =
     (case scrape_links scrape net n [] (links c) of
        Inl e \<Rightarrow> Inl e
      | Inr (metas, n') \<Rightarrow>
          (case fetch_pass scrape net n' cs of
             Inl e \<Rightarrow> Inl e
           | Inr fetched \<Rightarrow>
               Inr (\<lparr> name = name c, slug = slug c, links = links c, metadata = metas \<rparr>
                    # fetched)))"

text \<open>
  \<^verbatim>\<open>
    for (const collection of collections) {
      const collectionPage = generateCollectionPage(collection, collection.metadata);
      fs.writeFileSync(`dist/${collection.slug}.html`, collectionPage);
    }
  \<close>
\<close>

definition page_path :: "js_string \<Rightarrow> js_string" where
  "page_path sl = js ''dist/'' @ sl @ js ''.html''"

fun write_pages :: "renderer \<Rightarrow> fetched_collection list \<Rightarrow> file_system \<Rightarrow> file_system" where
  "write_pages render [] files = files"
| "write_pages render (c # cs) files =
     write_pages render cs (files(page_path (slug c) \<mapsto> render c (metadata c)))"

text \<open>
  \<open>build\<close>: read \<open>links.md\<close>, fetch, write the home page and the pages of the
  collections, copy the style sheet. A file that is not there raises \<open>ENOENT\<close>.
\<close>

definition build_with ::
  "scraper \<Rightarrow> renderer \<Rightarrow> file_system \<Rightarrow> network \<Rightarrow> js_error + file_system"
where
  "build_with scrape render files net =
     (case files (js ''links.md'') of
        None \<Rightarrow> Inl (ENOENT (js ''links.md''))
      | Some content \<Rightarrow>
          (case fetch_pass scrape net 0 (parseLinksFile content) of
             Inl e \<Rightarrow> Inl e
           | Inr collections \<Rightarrow>
               (let written =
                      write_pages render collections
                        (files(js ''dist/index.html'' \<mapsto> generateHomePage collections))
                in case written (js ''src/style.css'') of
                     None \<Rightarrow> Inl (ENOENT (js ''src/style.css''))
                   | Some css \<Rightarrow> Inr (written(js ''dist/style.css'' \<mapsto> css)))))"

definition buildA :: "url_parser \<Rightarrow> file_system \<Rightarrow> network \<Rightarrow> js_error + file_system" where
  "buildA new_URL = build_with (scrapeMetadataA new_URL) generateCollectionPageA"

definition buildB :: "url_parser \<Rightarrow> file_system \<Rightarrow> network \<Rightarrow> js_error + file_system" where
  "buildB new_URL = build_with (scrapeMetadataB new_URL) generateCollectionPageB"

section \<open>Predicates and sample inputs of the properties\<close>

text \<open>
  The characters of a slug as the specification describes it: lower-case letters, digits,
  the underscore and the hyphen. \<open>no_double_hyphen\<close> says that no two hyphens are
  neighbours.
\<close>

definition is_slug_char :: "jschar \<Rightarrow> bool" where
  "is_slug_char c =
     ((0x61 \<le> c \<and> c \<le> 0x7A) \<or> (0x30 \<le> c \<and> c \<le> 0x39) \<or> c = 0x5F \<or> c = hyphen)"

definition no_double_hyphen :: "js_string \<Rightarrow> bool" where
  "no_double_hyphen s = successively (\<lambda>a b. \<not> (a = hyphen \<and> b = hyphen)) s"

text \<open>
  Sample values for the parameters: what the platform's URL parser gives on the
  addresses of the examples (every other string of the examples, such as \<open>http://\<close>, is
  not a URL), and a document in which no selector finds anything.
\<close>

definition sample_URL :: url_parser where
  "sample_URL u =
     (if u = js ''https://example.com'' then
        Some \<lparr> protocol = js ''https:'', hostname = js ''example.com'',
               origin = js ''https://example.com'' \<rparr>
      else if u = js ''http://www.example.org/news'' then
        Some \<lparr> protocol = js ''http:'', hostname = js ''www.example.org'',
               origin = js ''http://www.example.org'' \<rparr>
      else if u = js ''https://a.com'' then
        Some \<lparr> protocol = js ''https:'', hostname = js ''a.com'', origin = js ''https://a.com'' \<rparr>
      else if u = js ''https://b.com'' then
        Some \<lparr> protocol = js ''https:'', hostname = js ''b.com'', origin = js ''https://b.com'' \<rparr>
      else None)"

definition empty_page :: page where
  "empty_page =
     \<lparr> og_title = None, twitter_title = None, title_text = [],
       og_description = None, twitter_description = None, meta_description = None,
       og_image = None, twitter_image = None, imgs = [] \<rparr>"

text \<open>
  What forcing HTTPS makes of a string: a leading \<open>http://\<close> becomes \<open>https://\<close>.
\<close>

definition to_https :: "js_string \<Rightarrow> js_string" where
  "to_https s = (if startsWith s (js ''http://'') then js ''https://'' @ drop 7 s else s)"

text \<open>
  A network on which the second request of the run is rejected and every other one
  gets an empty document with status 200, and the scenario of the specification as the
  text of \<open>links.md\<close>.
\<close>

definition sample_net :: network where
  "sample_net n u = (if n = 1 then Rejected else Response 200 empty_page)"

definition scenario_links :: js_string where
  "scenario_links =
     js ''# Tools\<newline>https://example.com\<newline>\<newline># Media\<newline>https://a.com\<newline>https://b.com''"

text \<open>
  The invariant of the fetch pass, between a collection and what the pass makes of it:
  the same name, slug and links, and a metadata array with one record per link, the
  record at each position carrying the link of that position as its \<open>url\<close>.
\<close>

definition aligned :: "collection \<Rightarrow> fetched_collection \<Rightarrow> bool" where
  "aligned c f =
     (name f = name c \<and> slug f = slug c \<and> links f = links c
      \<and> length (metadata f) = length (links c) \<and> map url (metadata f) = links c)"

text \<open>
  A link is well formed when \<open>new URL\<close> accepts it and the host name it gives holds no
  surrogate code unit (host names are ASCII), so that \<open>encodeURIComponent\<close> accepts it.
\<close>

definition no_surrogate :: "js_string \<Rightarrow> bool" where
  "no_surrogate s = list_all (\<lambda>c. c < 0xD800 \<or> 0xDFFF < c) s"

definition well_formed_link :: "url_parser \<Rightarrow> js_string \<Rightarrow> bool" where
  "well_formed_link new_URL u =
     (case new_URL u of None \<Rightarrow> False | Some urlObj \<Rightarrow> no_surrogate (hostname urlObj))"


definition colliding_links :: js_string where
  "colliding_links =
     js ''# Tools\<newline>https://a.com\<newline># Tools!\<newline>https://b.com''"



text \<open>
  The normalisation of an image reference in the words of the specification, for the
  prefix \<open>proto\<close> a protocol-relative reference gains and the origin \<open>orig\<close> of the page:
  a reference that begins with \<open>//\<close> gains the prefix, a root-relative one is put
  after the origin, an \<open>http://\<close> or \<open>https://\<close> address is kept, and a relative
  reference is joined to the origin with a slash. \<open>None\<close> stands where this text says
  nothing: for a reference with another scheme (a colon in its first segment, before any
  \<open>/\<close>, \<open>?\<close> or \<open>#\<close>) and for one that begins with the letters \<open>http\<close> without being an
  \<open>http://\<close> or \<open>https://\<close> address.
\<close>

definition has_scheme :: "js_string \<Rightarrow> bool" where
  "has_scheme s = (0x3A \<in> set (takeWhile (\<lambda>c. c \<noteq> slash \<and> c \<noteq> 0x3F \<and> c \<noteq> 0x23) s))"

definition spec_absolute_reference :: "js_string \<Rightarrow> js_string \<Rightarrow> js_string \<Rightarrow> js_string option" where
  "spec_absolute_reference proto orig s =
     (if startsWith s (js ''//'') then Some (proto @ s)
      else if startsWith s (js ''/'') then Some (orig @ s)
      else if startsWith s (js ''http://'') \<or> startsWith s (js ''https://'') then Some s
      else if startsWith s (js ''http'') \<or> has_scheme s then None
      else Some (orig @ js ''/'' @ s))"

text \<open>
  \<open>img\<close> is the image the scan of \<open>findFirstImage\<close> returns from: every image before it
  makes the loop continue, and \<open>img\<close> does not. Two sample images: one the scan skips
  (its address holds \<open>icon\<close>) and one it keeps.
\<close>

definition first_kept_image :: "url_obj \<Rightarrow> img_element list \<Rightarrow> img_element \<Rightarrow> bool" where
  "first_kept_image urlObj is img =
     (\<exists>skipped rest. is = skipped @ img # rest
        \<and> list_all (\<lambda>i. image_candidate urlObj i = None) skipped
        \<and> image_candidate urlObj img \<noteq> None)"

definition icon_img :: img_element where
  "icon_img = \<lparr> src = Some (js ''icons/x.png''), data_src = None, img_width = None, img_height = None \<rparr>"

definition inline_img :: img_element where
  "inline_img = \<lparr> src = Some (js ''pics/a.png''), data_src = None, img_width = None, img_height = None \<rparr>"

text \<open>A \<open>links.md\<close> whose second link, \<open>http://\<close>, is not a URL.\<close>

definition aborting_links :: js_string where
  "aborting_links = js ''# T\<newline>https://a.com\<newline>http://''"

section \<open>Properties of slugify\<close>

lemma slug_char_not_whitespace: "is_slug_char c \<Longrightarrow> \<not> is_whitespace c"
  by (auto simp: is_slug_char_def is_whitespace_def word_le_nat_alt)

lemma slug_char_keep: "is_slug_char c \<Longrightarrow> slug_keep c"
  by (auto simp: is_slug_char_def slug_keep_def is_word_char_def)

lemma lower_unit_slug_char: "is_slug_char c \<Longrightarrow> lower_unit c = [c]"
  by (auto simp: is_slug_char_def lower_unit_def word_le_nat_alt)

lemma lower_unit_no_capital:
  "c \<in> set (lower_unit x) \<Longrightarrow> \<not> (0x41 \<le> c \<and> c \<le> 0x5A)"
  unfolding lower_unit_def
  by (auto split: if_splits simp: word_le_nat_alt unat_word_ariths)

lemma toLowerCase_no_capital:
  "c \<in> set (toLowerCase s) \<Longrightarrow> \<not> (0x41 \<le> c \<and> c \<le> 0x5A)"
  unfolding toLowerCase_def using lower_unit_no_capital by auto

lemma kept_chars:
  "c \<in> set (filter slug_keep (toLowerCase s)) \<Longrightarrow> is_slug_char c \<or> is_whitespace c"
  using toLowerCase_no_capital[of c s]
  by (auto simp: slug_keep_def is_word_char_def is_slug_char_def)

lemma set_replace_runs:
  "set (replace_runs C r s) \<subseteq> set r \<union> {c \<in> set s. \<not> C c}"
proof (induction C r s rule: replace_runs.induct)
  case (1 C r)
  then show ?case by simp
next
  case (2 C r c cs)
  show ?case
  proof (cases "C c")
    case True
    have "set (dropWhile C cs) \<subseteq> set cs" by (simp add: set_dropWhileD subsetI)
    with 2(1)[OF True] True show ?thesis by auto
  next
    case False
    with 2(2)[OF False] show ?thesis by auto
  qed
qed

lemma replace_runs_head:
  "\<not> C c \<Longrightarrow> replace_runs C r (c # cs) = c # replace_runs C r cs"
  by simp

lemma replace_runs_id: "\<forall>c \<in> set s. \<not> C c \<Longrightarrow> replace_runs C r s = s"
  by (induction s) auto

lemma collapse_no_double:
  "no_double_hyphen (replace_runs (\<lambda>c. c = hyphen) [hyphen] s)"
proof (induction "\<lambda>c::jschar. c = hyphen" "[hyphen]" s rule: replace_runs.induct)
  case 1
  then show ?case by (simp add: no_double_hyphen_def)
next
  case (2 c cs)
  show ?case
  proof (cases "c = hyphen")
    case True
    define d where "d = dropWhile (\<lambda>c. c = hyphen) cs"
    have ih: "no_double_hyphen (replace_runs (\<lambda>c. c = hyphen) [hyphen] d)"
      using 2(1)[OF True] by (simp add: d_def)
    have step: "replace_runs (\<lambda>c. c = hyphen) [hyphen] (c # cs)
                  = hyphen # replace_runs (\<lambda>c. c = hyphen) [hyphen] d"
      using True by (simp add: d_def)
    show ?thesis
    proof (cases d)
      case Nil
      with step show ?thesis by (simp add: no_double_hyphen_def)
    next
      case (Cons x xs)
      have "x \<noteq> hyphen"
        using hd_dropWhile[of "\<lambda>c. c = hyphen" cs] Cons
        unfolding d_def[symmetric] by auto
      with ih Cons step show ?thesis
        by (simp add: no_double_hyphen_def)
    qed
  next
    case False
    with 2(2)[OF False] show ?thesis
      by (cases cs) (auto simp: no_double_hyphen_def successively_Cons split: if_splits)
  qed
qed

lemma collapse_id:
  "no_double_hyphen s \<Longrightarrow> replace_runs (\<lambda>c. c = hyphen) [hyphen] s = s"
proof (induction s rule: induct_list012)
  case 1 then show ?case by simp
next
  case (2 x) then show ?case by simp
next
  case (3 x y zs)
  then show ?case
    by (auto simp: no_double_hyphen_def)
qed

lemma dropWhile_none: "\<forall>c \<in> set s. \<not> P c \<Longrightarrow> dropWhile P s = s"
  by (cases s) auto

lemma trim_id: "\<forall>c \<in> set s. \<not> is_whitespace c \<Longrightarrow> trim s = s"
  by (simp add: trim_def dropWhile_none)

lemma slugify_shape:
  "(\<forall>c \<in> set (slugify x). is_slug_char c) \<and> no_double_hyphen (slugify x)"
proof -
  let ?k = "filter slug_keep (toLowerCase x)"
  let ?w = "replace_runs is_whitespace (js ''-'') ?k"
  let ?h = "replace_runs (\<lambda>c. c = hyphen) (js ''-'') ?w"
  have w: "\<forall>c \<in> set ?w. is_slug_char c"
  proof
    fix c assume "c \<in> set ?w"
    then have "c \<in> set (js ''-'') \<or> (c \<in> set ?k \<and> \<not> is_whitespace c)"
      using set_replace_runs[of is_whitespace "js ''-''" ?k] by auto
    then show "is_slug_char c"
      using kept_chars[of c x] by (auto simp: js_def is_slug_char_def)
  qed
  have h: "\<forall>c \<in> set ?h. is_slug_char c"
  proof
    fix c assume "c \<in> set ?h"
    then have "c \<in> set (js ''-'') \<or> c \<in> set ?w"
      using set_replace_runs[of "\<lambda>c. c = hyphen" "js ''-''" ?w] by auto
    then show "is_slug_char c"
      using w by (auto simp: js_def is_slug_char_def)
  qed
  have nd: "no_double_hyphen ?h"
    using collapse_no_double[of ?w] by (simp add: js_def)
  have "slugify x = ?h"
    unfolding slugify_def using h slug_char_not_whitespace by (intro trim_id) blast
  with h nd show ?thesis by simp
qed

lemma slugify_fixpoint:
  assumes "\<forall>c \<in> set s. is_slug_char c" and "no_double_hyphen s"
  shows "slugify s = s"
proof -
  have 1: "toLowerCase s = s"
    unfolding toLowerCase_def using assms(1)
    by (induction s) (auto simp: lower_unit_slug_char)
  have 2: "filter slug_keep s = s"
    using assms(1) slug_char_keep by (simp add: filter_id_conv)
  have 3: "replace_runs is_whitespace (js ''-'') s = s"
    using assms(1) slug_char_not_whitespace by (intro replace_runs_id) blast
  have 4: "replace_runs (\<lambda>c. c = hyphen) (js ''-'') s = s"
    using collapse_id[OF assms(2)] by (simp add: js_def)
  have 5: "trim s = s"
    using assms(1) slug_char_not_whitespace by (intro trim_id) blast
  show ?thesis by (simp add: slugify_def 1 2 3 4 5)
qed

text \<open>
  Claim C8. \<open>slugify\<close> is idempotent: applied to one of its own results it changes
  nothing, for every input string.
\<close>

theorem slugify_idempotent: "slugify (slugify x) = slugify x"
  using slugify_shape[of x] by (intro slugify_fixpoint) auto

theorem slugify_idempotent_witness:
  "slugify (slugify (js ''  Hello,   World -- x  '')) = slugify (js ''  Hello,   World -- x  '')"
  by (rule slugify_idempotent)

text \<open>
  Claim C6. A slug holds lower-case word characters and hyphens only and neither begins
  nor ends with a hyphen. The code keeps a hyphen at an edge: the final \<open>trim\<close> strips
  whitespace, and by then every whitespace run has become a hyphen. The heading
  \<open># Tools &\<close> gets the slug \<open>tools-\<close>, the name \<open>- Tools\<close> the slug \<open>-tools\<close>.
\<close>

theorem slugify_keeps_edge_hyphen:
  "slugify (js ''Tools &'') = js ''tools-''
   \<and> slugify (js ''- Tools'') = js ''-tools''
   \<and> map slug (parseLinksFile (js ''# Tools &'')) = [js ''tools-'']"
  by code_simp

section \<open>Properties of escapeHtml\<close>

lemma entities_amp_first:
  "e \<in> set entities \<Longrightarrow> i < length e \<Longrightarrow> e ! i = amp \<Longrightarrow> i = 0"
  by (auto simp: entities_def js_def nth_Cons' split: if_splits)

lemma entities_plain:
  "e \<in> set entities \<Longrightarrow> lt \<notin> set e \<and> gt \<notin> set e \<and> dquote \<notin> set e \<and> squote \<notin> set e"
  by (auto simp: entities_def js_def)

lemma escape_char_cases:
  "escape_char c \<in> set entities \<or> (escape_char c = [c] \<and> \<not> html_special c)"
  by (auto simp: escape_char_def html_special_def entity_map_def entities_def)

lemma escapeHtml_Cons: "escapeHtml (c # cs) = escape_char c @ escapeHtml cs"
  by (simp add: escapeHtml_def)

lemma escapeHtml_plain:
  "lt \<notin> set (escapeHtml s) \<and> gt \<notin> set (escapeHtml s) \<and> dquote \<notin> set (escapeHtml s)
     \<and> squote \<notin> set (escapeHtml s)"
proof (induction s)
  case Nil
  then show ?case by (simp add: escapeHtml_def)
next
  case (Cons c cs)
  from escape_char_cases[of c] show ?case
  proof
    assume "escape_char c \<in> set entities"
    from entities_plain[OF this] Cons show ?thesis by (simp add: escapeHtml_Cons)
  next
    assume "escape_char c = [c] \<and> \<not> html_special c"
    with Cons show ?thesis by (auto simp: escapeHtml_Cons html_special_def)
  qed
qed

lemma escapeHtml_amp:
  "i < length (escapeHtml s) \<Longrightarrow> escapeHtml s ! i = amp
     \<Longrightarrow> \<exists>e \<in> set entities. prefix e (drop i (escapeHtml s))"
proof (induction s arbitrary: i)
  case Nil
  then show ?case by (simp add: escapeHtml_def)
next
  case (Cons c cs)
  let ?t = "escape_char c"
  show ?case
  proof (cases "i < length ?t")
    case True
    then have at: "?t ! i = amp" using Cons.prems(2) by (simp add: escapeHtml_Cons nth_append)
    from escape_char_cases[of c] show ?thesis
    proof
      assume e: "?t \<in> set entities"
      from entities_amp_first[OF e True at] have "i = 0" .
      then have "drop i (escapeHtml (c # cs)) = ?t @ escapeHtml cs"
        by (simp add: escapeHtml_Cons)
      then have "prefix ?t (drop i (escapeHtml (c # cs)))" by simp
      with e show ?thesis by (rule rev_bexI)
    next
      assume "?t = [c] \<and> \<not> html_special c"
      with True at show ?thesis by (auto simp: html_special_def)
    qed
  next
    case False
    then have "i - length ?t < length (escapeHtml cs)"
      and "escapeHtml cs ! (i - length ?t) = amp"
      using Cons.prems by (auto simp: escapeHtml_Cons nth_append)
    from Cons.IH[OF this] False show ?thesis by (simp add: escapeHtml_Cons)
  qed
qed

text \<open>
  Claim C10. For every input string the result of \<open>escapeHtml\<close> holds none of the
  characters \<open><\<close>, \<open>>\<close>, \<open>"\<close> and \<open>'\<close>, and wherever it holds an \<open>&\<close>, one of the five
  entities \<open>&amp;\<close>, \<open>&lt;\<close>, \<open>&gt;\<close>, \<open>&quot;\<close>, \<open>&#039;\<close> starts at that place.
\<close>

theorem escapeHtml_output_safe:
  "lt \<notin> set (escapeHtml s) \<and> gt \<notin> set (escapeHtml s) \<and> dquote \<notin> set (escapeHtml s)
   \<and> squote \<notin> set (escapeHtml s)
   \<and> (\<forall>i < length (escapeHtml s). escapeHtml s ! i = amp
         \<longrightarrow> (\<exists>e \<in> set entities. prefix e (drop i (escapeHtml s))))"
  using escapeHtml_plain[of s] escapeHtml_amp[of _ s] by blast

theorem escapeHtml_output_safe_witness:
  "escapeHtml (js ''a&b'') = js ''a&amp;b''
   \<and> (1::nat) < length (escapeHtml (js ''a&b'')) \<and> escapeHtml (js ''a&b'') ! 1 = amp
   \<and> (\<exists>e \<in> set entities. prefix e (drop 1 (escapeHtml (js ''a&b''))))"
proof -
  have v: "escapeHtml (js ''a&b'') = js ''a&amp;b''"
    by (simp add: escapeHtml_def escape_char_def html_special_def entity_map_def js_def)
  have l: "(1::nat) < length (escapeHtml (js ''a&b''))" and a: "escapeHtml (js ''a&b'') ! 1 = amp"
    unfolding v by (simp_all add: js_def)
  from escapeHtml_output_safe[of "js ''a&b''"] l a
  have "\<exists>e \<in> set entities. prefix e (drop 1 (escapeHtml (js ''a&b'')))" by blast
  with v l a show ?thesis by blast
qed

section \<open>Properties of scrapeMetadata\<close>

lemma replace_first_prefix:
  "startsWith s p \<Longrightarrow> replace_first p r s = r @ drop (length p) s"
  by (cases s) (auto simp: startsWith_def)

lemma length_http: "length (js ''http://'') = 7"
  by (simp add: js_def)

lemma force_https_Some: "force_https (Some s) = Some (to_https s)"
proof (cases "startsWith s (js ''http://'')")
  case True
  then have "s \<noteq> []" by (auto simp: startsWith_def js_def)
  with True show ?thesis
    by (simp add: force_https_def to_https_def replace_first_prefix length_http)
next
  case False
  then show ?thesis by (simp add: force_https_def to_https_def)
qed

lemma to_https_not_http: "\<not> startsWith (to_https s) (js ''http://'')"
  by (auto simp: to_https_def startsWith_def js_def)

lemma to_https_empty: "to_https s = [] \<longleftrightarrow> s = []"
  by (auto simp: to_https_def startsWith_def js_def)

lemma trim_ellipsis: "trim (s @ js ''...'') = dropWhile is_whitespace s @ js ''...''"
proof -
  have dot: "\<not> is_whitespace 0x2E" by (simp add: is_whitespace_def)
  have front: "dropWhile is_whitespace (s @ js ''...'') = dropWhile is_whitespace s @ js ''...''"
    using dot by (simp add: dropWhile_append js_def)
  have rear: "dropWhile is_whitespace (rev (dropWhile is_whitespace s @ js ''...''))
                = rev (dropWhile is_whitespace s @ js ''...'')"
    using dot by (simp add: js_def)
  show ?thesis by (simp add: trim_def front rear del: rev_append)
qed

text \<open>
  Claim C2. \<open>scrapeMetadata\<close> never raises: every failure gives the fallback record.
  The code raises on a string that is not a URL: the rejected fetch is caught, and the
  \<open>catch\<close> block itself calls \<open>new URL(url)\<close>, whose \<open>TypeError\<close> nothing catches. This
  holds in both versions of the file.
\<close>

theorem scrapeMetadata_raises_on_invalid_url:
  "new_URL u = None \<Longrightarrow>
     scrapeMetadataA new_URL u Rejected = Inl InvalidURL
     \<and> scrapeMetadataB new_URL u Rejected = Inl InvalidURL"
  by (simp add: scrapeMetadataA_def scrape_try_A_def scrape_catch_A_def
        scrapeMetadataB_def scrape_try_B_def scrape_catch_B_def)

theorem scrapeMetadata_raises_on_invalid_url_witness:
  "sample_URL (js ''http://'') = None
   \<and> scrapeMetadataA sample_URL (js ''http://'') Rejected = Inl InvalidURL
   \<and> scrapeMetadataB sample_URL (js ''http://'') Rejected = Inl InvalidURL"
proof -
  have n: "sample_URL (js ''http://'') = None" by (simp add: sample_URL_def js_def)
  from scrapeMetadata_raises_on_invalid_url[of sample_URL "js ''http://''"] n show ?thesis by simp
qed

text \<open>
  Claim C4. The title of the returned record is never empty. The code returns an empty
  title with \<open>success = true\<close> for a page whose Open Graph title is one space: the
  fallback chain takes the title as non-empty, and \<open>title.trim()\<close> empties it afterwards.
\<close>

theorem blank_title_returned_empty:
  "scrapeMetadataA sample_URL (js ''https://example.com'')
       (Response 200 (empty_page \<lparr> og_title := Some (js '' '') \<rparr>))
     = Inr \<lparr> url = js ''https://example.com'', title = [], description = [],
             image_url = js ''https://via.placeholder.com/400x200/f5f5f5/666666?text=example.com'',
             success = True \<rparr>
   \<and> scrapeMetadataB sample_URL (js ''https://example.com'')
       (Response 200 (empty_page \<lparr> og_title := Some (js '' '') \<rparr>))
     = Inr \<lparr> url = js ''https://example.com'', title = [], description = [],
             image_url = [], success = True \<rparr>"
  by code_simp

lemma scrapeMetadataA_success:
  "scrapeMetadataA new_URL u outcome = Inr m \<Longrightarrow> success m
     \<Longrightarrow> scrape_try_A new_URL u outcome = Inr m"
  by (auto simp: scrapeMetadataA_def scrape_catch_A_def Let_def
           split: sum.splits option.splits)

lemma scrapeMetadataB_success:
  "scrapeMetadataB new_URL u outcome = Inr m \<Longrightarrow> success m
     \<Longrightarrow> scrape_try_B new_URL u outcome = Inr m"
  by (auto simp: scrapeMetadataB_def scrape_catch_B_def split: sum.splits option.splits)

lemma scrape_try_A_description:
  "scrape_try_A new_URL u (Response st p) = Inr m \<Longrightarrow>
     description m =
       trim (truncate_description
               (if isGenericDescription (extract_description p) u then []
                else extract_description p))"
  by (auto simp: scrape_try_A_def Let_def split: if_splits sum.splits)

lemma scrape_try_B_description:
  "scrape_try_B new_URL u (Response st p) = Inr m \<Longrightarrow>
     description m = trim (truncate_description (extract_description p))"
  by (auto simp: scrape_try_B_def split: if_splits sum.splits)

lemma truncated_trim:
  "200 < length d \<Longrightarrow>
     trim (truncate_description d) = dropWhile is_whitespace (take 200 d) @ js ''...''"
  by (simp add: truncate_description_def trim_ellipsis)

text \<open>
  Claim C5, as amended. Let the extracted description be longer than 200 code units.
  When \<open>scrapeMetadata\<close> returns a record with \<open>success = true\<close> (and, in the first
  version, the description is not discarded as generic), the description of the record
  is the first 200 code units without their leading whitespace, followed by \<open>...\<close>. The
  part before the ellipsis has at most 200 code units, and exactly 200 when the extracted
  description does not begin with whitespace.
\<close>

theorem long_description_truncated:
  assumes "200 < length (extract_description p)"
  shows "(scrapeMetadataA new_URL u (Response st p) = Inr m \<and> success m
            \<and> \<not> isGenericDescription (extract_description p) u
          \<longrightarrow> description m
                = dropWhile is_whitespace (take 200 (extract_description p)) @ js ''...'')
       \<and> (scrapeMetadataB new_URL u (Response st p) = Inr m \<and> success m
          \<longrightarrow> description m
                = dropWhile is_whitespace (take 200 (extract_description p)) @ js ''...'')
       \<and> length (dropWhile is_whitespace (take 200 (extract_description p))) \<le> 200
       \<and> (\<not> is_whitespace (hd (extract_description p))
          \<longrightarrow> length (dropWhile is_whitespace (take 200 (extract_description p))) = 200)"
proof -
  let ?d = "extract_description p"
  have a: "scrapeMetadataA new_URL u (Response st p) = Inr m \<and> success m
            \<and> \<not> isGenericDescription ?d u
          \<longrightarrow> description m = dropWhile is_whitespace (take 200 ?d) @ js ''...''"
    using scrape_try_A_description[of new_URL u st p m]
      scrapeMetadataA_success[of new_URL u "Response st p" m] truncated_trim[OF assms]
    by auto
  have b: "scrapeMetadataB new_URL u (Response st p) = Inr m \<and> success m
          \<longrightarrow> description m = dropWhile is_whitespace (take 200 ?d) @ js ''...''"
    using scrape_try_B_description[of new_URL u st p m]
      scrapeMetadataB_success[of new_URL u "Response st p" m] truncated_trim[OF assms]
    by auto
  have c: "length (dropWhile is_whitespace (take 200 ?d)) \<le> 200"
    using length_dropWhile_le[of is_whitespace "take 200 ?d"] by simp
  have d: "\<not> is_whitespace (hd ?d)
          \<longrightarrow> length (dropWhile is_whitespace (take 200 ?d)) = 200"
  proof
    assume h: "\<not> is_whitespace (hd ?d)"
    from assms obtain x xs where "?d = x # xs" by (cases ?d) auto
    with h have "dropWhile is_whitespace (take 200 ?d) = take 200 ?d" by simp
    with assms show "length (dropWhile is_whitespace (take 200 ?d)) = 200" by simp
  qed
  from a b c d show ?thesis by blast
qed

theorem long_description_truncated_witness:
  "200 < length (extract_description (empty_page \<lparr> og_description := Some (replicate 250 0x61) \<rparr>))
   \<and> scrapeMetadataB sample_URL (js ''https://example.com'')
         (Response 200 (empty_page \<lparr> og_description := Some (replicate 250 0x61) \<rparr>))
       = Inr \<lparr> url = js ''https://example.com'', title = js ''example.com'',
               description = replicate 200 0x61 @ js ''...'', image_url = [], success = True \<rparr>
   \<and> dropWhile is_whitespace
         (take 200 (extract_description (empty_page \<lparr> og_description := Some (replicate 250 0x61) \<rparr>)))
         @ js ''...''
       = replicate 200 0x61 @ js ''...''"
proof -
  let ?p = "empty_page \<lparr> og_description := Some (replicate 250 0x61) \<rparr>"
  let ?m = "\<lparr> url = js ''https://example.com'', title = js ''example.com'',
               description = replicate 200 0x61 @ js ''...'', image_url = [], success = True \<rparr>"
  have l: "200 < length (extract_description ?p)" by code_simp
  have r: "scrapeMetadataB sample_URL (js ''https://example.com'') (Response 200 ?p) = Inr ?m"
    by code_simp
  have s: "success ?m" by simp
  from long_description_truncated[OF l, of sample_URL "js ''https://example.com''" 200 ?m] r s
  have "description ?m
          = dropWhile is_whitespace (take 200 (extract_description ?p)) @ js ''...''"
    by blast
  with l r show ?thesis by simp
qed

text \<open>
  Claim C5 as stated fails: a description of one space and 250 letters comes back as
  199 letters and the ellipsis, since the record is trimmed after the truncation.
\<close>

theorem padded_description_counterexample:
  "200 < length (extract_description
                   (empty_page \<lparr> og_description := Some (0x20 # replicate 250 0x61) \<rparr>))
   \<and> scrapeMetadataA sample_URL (js ''https://example.com'')
         (Response 200 (empty_page \<lparr> og_description := Some (0x20 # replicate 250 0x61) \<rparr>))
       = Inr \<lparr> url = js ''https://example.com'', title = js ''example.com'',
               description = replicate 199 0x61 @ js ''...'',
               image_url =
                 js ''https://via.placeholder.com/400x200/f5f5f5/666666?text=example.com'',
               success = True \<rparr>
   \<and> scrapeMetadataB sample_URL (js ''https://example.com'')
         (Response 200 (empty_page \<lparr> og_description := Some (0x20 # replicate 250 0x61) \<rparr>))
       = Inr \<lparr> url = js ''https://example.com'', title = js ''example.com'',
               description = replicate 199 0x61 @ js ''...'', image_url = [],
               success = True \<rparr>"
  by code_simp

lemma extract_title_parsed:
  "new_URL u = Some urlObj \<Longrightarrow> \<exists>t. extract_title new_URL u p = Inr t"
  by (auto simp: extract_title_def split: option.splits list.splits)

lemma absolute_image_A_parsed:
  "new_URL u = Some urlObj \<Longrightarrow> s \<noteq> [] \<Longrightarrow>
     absolute_image_A new_URL u (Some s) =
       Inr (Some (if startsWith s (js ''http'') then s
                  else if startsWith s (js ''//'') then js ''https:'' @ s
                  else if startsWith s (js ''/'') then origin urlObj @ s
                  else origin urlObj @ js ''/'' @ s))"
  by (simp add: absolute_image_A_def)

lemma absolute_image_B_parsed:
  "new_URL u = Some urlObj \<Longrightarrow> s \<noteq> [] \<Longrightarrow>
     absolute_image_B new_URL u s =
       Inr (if startsWith s (js ''http'') then s
            else if startsWith s (js ''//'') then protocol urlObj @ s
            else if startsWith s (js ''/'') then origin urlObj @ s
            else origin urlObj @ js ''/'' @ s)"
  by (simp add: absolute_image_B_def)

lemma image_or_placeholder_nonempty:
  "s \<noteq> [] \<Longrightarrow> image_or_placeholder new_URL u (Some s) = Inr s"
  by (simp add: image_or_placeholder_def truthy_def)

lemma scrapeMetadataA_image:
  assumes "new_URL u = Some urlObj" and "response_ok st" and "extract_image p \<noteq> []"
  shows "\<exists>m. scrapeMetadataA new_URL u (Response st p) = Inr m
           \<and> image_url m =
               to_https (if startsWith (extract_image p) (js ''http'') then extract_image p
                         else if startsWith (extract_image p) (js ''//'')
                           then js ''https:'' @ extract_image p
                         else if startsWith (extract_image p) (js ''/'')
                           then origin urlObj @ extract_image p
                         else origin urlObj @ js ''/'' @ extract_image p)"
proof -
  let ?s = "extract_image p"
  let ?a = "if startsWith ?s (js ''http'') then ?s
            else if startsWith ?s (js ''//'') then js ''https:'' @ ?s
            else if startsWith ?s (js ''/'') then origin urlObj @ ?s
            else origin urlObj @ js ''/'' @ ?s"
  obtain t where t: "extract_title new_URL u p = Inr t"
    using extract_title_parsed[of new_URL u urlObj p] assms(1) by blast
  have ne: "?a \<noteq> []" using assms(3) by (auto simp: js_def)
  have abs: "absolute_image_A new_URL u (Some ?s) = Inr (Some ?a)"
    using absolute_image_A_parsed[of new_URL u urlObj ?s] assms(1,3) by blast
  have fin: "image_or_placeholder new_URL u (force_https (Some ?a)) = Inr (to_https ?a)"
    using ne by (simp add: force_https_Some image_or_placeholder_nonempty to_https_empty)
  show ?thesis
    unfolding scrapeMetadataA_def scrape_try_A_def
    using assms(2,3) t abs fin by (simp add: Let_def)
qed

lemma scrapeMetadataB_image:
  assumes "new_URL u = Some urlObj" and "response_ok st" and "extract_image p \<noteq> []"
  shows "\<exists>m. scrapeMetadataB new_URL u (Response st p) = Inr m
           \<and> image_url m =
               (if startsWith (extract_image p) (js ''http'') then extract_image p
                else if startsWith (extract_image p) (js ''//'')
                  then protocol urlObj @ extract_image p
                else if startsWith (extract_image p) (js ''/'')
                  then origin urlObj @ extract_image p
                else origin urlObj @ js ''/'' @ extract_image p)"
proof -
  obtain t where t: "extract_title new_URL u p = Inr t"
    using extract_title_parsed[of new_URL u urlObj p] assms(1) by blast
  show ?thesis
    unfolding scrapeMetadataB_def scrape_try_B_def
    using assms t absolute_image_B_parsed[of new_URL u urlObj "extract_image p"] by simp
qed

lemma startsWith_append:
  assumes "startsWith a p"
  shows "startsWith (a @ b) p"
proof -
  from assms have e: "take (length p) a = p" by (simp add: startsWith_def)
  then have "length p \<le> length a" by (metis length_take min.cobounded1)
  with e show ?thesis by (simp add: startsWith_def)
qed

lemma startsWith_shorter:
  assumes "startsWith s (p @ q)"
  shows "startsWith s p"
proof -
  from assms have "take (length p + length q) s = p @ q" by (simp add: startsWith_def)
  then have "take (length p) (take (length p + length q) s) = take (length p) (p @ q)"
    by simp
  then show ?thesis by (simp add: startsWith_def)
qed

lemma startsWith_http_prefix:
  "startsWith s (js ''http://'') \<or> startsWith s (js ''https://'') \<Longrightarrow> startsWith s (js ''http'')"
  using startsWith_shorter[of s "js ''http''" "js ''://''"]
    startsWith_shorter[of s "js ''http''" "js ''s://''"]
  by (auto simp: js_def)

lemma to_https_keeps_http: "startsWith x (js ''http'') \<Longrightarrow> startsWith (to_https x) (js ''http'')"
  using startsWith_append[of "js ''https://''" "js ''http''" "drop 7 x"]
  by (auto simp: to_https_def) (simp add: startsWith_def js_def)

lemma to_https_fixed: "\<not> startsWith x (js ''http://'') \<Longrightarrow> to_https x = x"
  by (simp add: to_https_def)

lemma slashes_not_http:
  "startsWith s (js ''/'') \<Longrightarrow> \<not> startsWith s (js ''http'')"
  by (cases s) (auto simp: startsWith_def js_def)

lemma double_slash_single: "startsWith s (js ''//'') \<Longrightarrow> startsWith s (js ''/'')"
  using startsWith_shorter[of s "js ''/''" "js ''/''"] by (simp add: js_def)

text \<open>What both copies of the normalisation compute from a non-empty reference.\<close>

lemma spec_absolute_code:
  assumes "spec_absolute_reference proto orig s = Some a"
  shows "a = (if startsWith s (js ''http'') then s
              else if startsWith s (js ''//'') then proto @ s
              else if startsWith s (js ''/'') then orig @ s
              else orig @ js ''/'' @ s)"
  using assms slashes_not_http[of s] double_slash_single[of s] startsWith_http_prefix[of s]
  by (auto simp: spec_absolute_reference_def split: if_splits)

lemma first_candidate_found:
  assumes "list_all (\<lambda>i. image_candidate urlObj i = None) skipped"
    and "image_candidate urlObj img = Some r"
  shows "first_candidate urlObj (skipped @ img # rest) = Some r"
  using assms by (induction skipped) auto

lemma image_candidate_value:
  assumes "image_candidate urlObj img = Some r" and "or_js (src img) (data_src img) = Some s"
  shows "s \<noteq> [] \<and> r = to_https (if startsWith s (js ''//'') then js ''https:'' @ s
                                  else if startsWith s (js ''/'') then origin urlObj @ s
                                  else if \<not> startsWith s (js ''http'') then origin urlObj @ js ''/'' @ s
                                  else s)"
  using assms
  by (auto simp: image_candidate_def Let_def to_https_def replace_first_prefix length_http
           split: if_splits)

lemma scrapeMetadataA_inline_image:
  assumes "new_URL u = Some urlObj" and "response_ok st" and "extract_image p = []"
    and "startsWith (origin urlObj) (js ''http'')"
    and "first_kept_image urlObj (imgs p) img"
    and "or_js (src img) (data_src img) = Some s"
  shows "\<exists>m. scrapeMetadataA new_URL u (Response st p) = Inr m
           \<and> image_url m =
               to_https (if startsWith s (js ''http'') then s
                         else if startsWith s (js ''//'') then js ''https:'' @ s
                         else if startsWith s (js ''/'') then origin urlObj @ s
                         else origin urlObj @ js ''/'' @ s)"
proof -
  let ?n = "if startsWith s (js ''//'') then js ''https:'' @ s
            else if startsWith s (js ''/'') then origin urlObj @ s
            else if \<not> startsWith s (js ''http'') then origin urlObj @ js ''/'' @ s
            else s"
  from assms(5) obtain skipped rest r where
    sp: "imgs p = skipped @ img # rest"
    and sk: "list_all (\<lambda>i. image_candidate urlObj i = None) skipped"
    and r: "image_candidate urlObj img = Some r"
    by (auto simp: first_kept_image_def)
  have found: "findFirstImage new_URL p u = Inr (Some r)"
    using first_candidate_found[OF sk r, of rest] sp assms(1) by (simp add: findFirstImage_def)
  from image_candidate_value[OF r assms(6)] have rv: "r = to_https ?n" by simp
  have "startsWith (js ''https:'' @ s) (js ''http'')"
    by (rule startsWith_append) (simp add: startsWith_def js_def)
  moreover have "startsWith (origin urlObj @ t) (js ''http'')" for t
    using assms(4) by (rule startsWith_append)
  ultimately have "startsWith ?n (js ''http'')" by auto
  then have rh: "startsWith r (js ''http'')" unfolding rv by (rule to_https_keeps_http)
  then have rne: "r \<noteq> []" by (auto simp: startsWith_def js_def)
  have abs: "absolute_image_A new_URL u (Some r) = Inr (Some r)"
    using rh by (simp add: absolute_image_A_def)
  have "to_https r = r" unfolding rv by (rule to_https_fixed) (rule to_https_not_http)
  then have fin: "image_or_placeholder new_URL u (force_https (Some r)) = Inr r"
    using rne by (simp add: force_https_Some image_or_placeholder_nonempty)
  have same: "?n = (if startsWith s (js ''http'') then s
                    else if startsWith s (js ''//'') then js ''https:'' @ s
                    else if startsWith s (js ''/'') then origin urlObj @ s
                    else origin urlObj @ js ''/'' @ s)"
    using slashes_not_http[of s] double_slash_single[of s] by auto
  obtain t where t: "extract_title new_URL u p = Inr t"
    using extract_title_parsed[of new_URL u urlObj p] assms(1) by blast
  have "\<exists>m. scrapeMetadataA new_URL u (Response st p) = Inr m \<and> image_url m = r"
    unfolding scrapeMetadataA_def scrape_try_A_def
    using assms(2,3) t found abs fin by (simp add: Let_def)
  then show ?thesis unfolding rv same .
qed

text \<open>
  Claim C7, as amended. Let the page's address parse and the response be ok, and take a
  non-empty image reference: the Open Graph or Twitter one or, in the first version when
  there is none, the address of the first inline image the scan keeps (on a page whose
  origin begins with \<open>http\<close>). Where \<open>spec_absolute_reference\<close> gives an address, the
  record holds it: a reference that begins with \<open>//\<close> gains \<open>https:\<close> in the first version
  and the protocol of the page's address in the second; in both versions a root-relative
  reference is put after the origin, an \<open>http://\<close> or \<open>https://\<close> address is kept, and a
  relative reference with no scheme that does not begin with the letters \<open>http\<close> is joined
  to the origin with a slash. The first version then rewrites a leading \<open>http://\<close> of the
  result to \<open>https://\<close> (\<open>to_https\<close>), so that its image never begins with \<open>http://\<close>;
  the second version does not.
\<close>

theorem image_reference_made_absolute:
  assumes "new_URL u = Some urlObj" and "response_ok st"
  shows
    "(extract_image p \<noteq> []
        \<and> spec_absolute_reference (js ''https:'') (origin urlObj) (extract_image p) = Some a
      \<longrightarrow> (\<exists>m. scrapeMetadataA new_URL u (Response st p) = Inr m \<and> image_url m = to_https a))
   \<and> (extract_image p \<noteq> []
        \<and> spec_absolute_reference (protocol urlObj) (origin urlObj) (extract_image p) = Some b
      \<longrightarrow> (\<exists>m. scrapeMetadataB new_URL u (Response st p) = Inr m \<and> image_url m = b))
   \<and> (extract_image p = [] \<and> startsWith (origin urlObj) (js ''http'')
        \<and> first_kept_image urlObj (imgs p) img
        \<and> or_js (src img) (data_src img) = Some s
        \<and> spec_absolute_reference (js ''https:'') (origin urlObj) s = Some c
      \<longrightarrow> (\<exists>m. scrapeMetadataA new_URL u (Response st p) = Inr m \<and> image_url m = to_https c))
   \<and> \<not> startsWith (to_https x) (js ''http://'')
   \<and> to_https (js ''https:'' @ y) = js ''https:'' @ y"
proof (intro conjI impI)
  assume h: "extract_image p \<noteq> []
        \<and> spec_absolute_reference (js ''https:'') (origin urlObj) (extract_image p) = Some a"
  then have "a = (if startsWith (extract_image p) (js ''http'') then extract_image p
                  else if startsWith (extract_image p) (js ''//'') then js ''https:'' @ extract_image p
                  else if startsWith (extract_image p) (js ''/'') then origin urlObj @ extract_image p
                  else origin urlObj @ js ''/'' @ extract_image p)"
    using spec_absolute_code[of "js ''https:''" "origin urlObj" "extract_image p" a] by blast
  then show "\<exists>m. scrapeMetadataA new_URL u (Response st p) = Inr m \<and> image_url m = to_https a"
    using scrapeMetadataA_image[of new_URL u urlObj st p] assms h by simp
next
  assume h: "extract_image p \<noteq> []
        \<and> spec_absolute_reference (protocol urlObj) (origin urlObj) (extract_image p) = Some b"
  then have "b = (if startsWith (extract_image p) (js ''http'') then extract_image p
                  else if startsWith (extract_image p) (js ''//'') then protocol urlObj @ extract_image p
                  else if startsWith (extract_image p) (js ''/'') then origin urlObj @ extract_image p
                  else origin urlObj @ js ''/'' @ extract_image p)"
    using spec_absolute_code[of "protocol urlObj" "origin urlObj" "extract_image p" b] by blast
  then show "\<exists>m. scrapeMetadataB new_URL u (Response st p) = Inr m \<and> image_url m = b"
    using scrapeMetadataB_image[of new_URL u urlObj st p] assms h by simp
next
  assume h: "extract_image p = [] \<and> startsWith (origin urlObj) (js ''http'')
        \<and> first_kept_image urlObj (imgs p) img
        \<and> or_js (src img) (data_src img) = Some s
        \<and> spec_absolute_reference (js ''https:'') (origin urlObj) s = Some c"
  then have "c = (if startsWith s (js ''http'') then s
                  else if startsWith s (js ''//'') then js ''https:'' @ s
                  else if startsWith s (js ''/'') then origin urlObj @ s
                  else origin urlObj @ js ''/'' @ s)"
    using spec_absolute_code[of "js ''https:''" "origin urlObj" s c] by blast
  then show "\<exists>m. scrapeMetadataA new_URL u (Response st p) = Inr m \<and> image_url m = to_https c"
    using scrapeMetadataA_inline_image[of new_URL u urlObj st p img s] assms h by simp
next
  show "\<not> startsWith (to_https x) (js ''http://'')" by (rule to_https_not_http)
next
  show "to_https (js ''https:'' @ y) = js ''https:'' @ y"
    by (rule to_https_fixed) (simp add: startsWith_def js_def)
qed

theorem image_reference_made_absolute_witness:
  "sample_URL (js ''http://www.example.org/news'')
     = Some \<lparr> protocol = js ''http:'', hostname = js ''www.example.org'',
              origin = js ''http://www.example.org'' \<rparr>
   \<and> response_ok 200
   \<and> extract_image (empty_page \<lparr> og_image := Some (js ''/img/i.png'') \<rparr>) \<noteq> []
   \<and> spec_absolute_reference (js ''https:'') (js ''http://www.example.org'')
         (extract_image (empty_page \<lparr> og_image := Some (js ''/img/i.png'') \<rparr>))
       = Some (js ''http://www.example.org/img/i.png'')
   \<and> spec_absolute_reference (js ''http:'') (js ''http://www.example.org'')
         (extract_image (empty_page \<lparr> og_image := Some (js ''/img/i.png'') \<rparr>))
       = Some (js ''http://www.example.org/img/i.png'')
   \<and> (\<exists>m. scrapeMetadataA sample_URL (js ''http://www.example.org/news'')
             (Response 200 (empty_page \<lparr> og_image := Some (js ''/img/i.png'') \<rparr>)) = Inr m
          \<and> image_url m = js ''https://www.example.org/img/i.png'')
   \<and> (\<exists>m. scrapeMetadataB sample_URL (js ''http://www.example.org/news'')
             (Response 200 (empty_page \<lparr> og_image := Some (js ''/img/i.png'') \<rparr>)) = Inr m
          \<and> image_url m = js ''http://www.example.org/img/i.png'')
   \<and> extract_image (empty_page \<lparr> imgs := [icon_img, inline_img] \<rparr>) = []
   \<and> startsWith (js ''http://www.example.org'') (js ''http'')
   \<and> first_kept_image
         \<lparr> protocol = js ''http:'', hostname = js ''www.example.org'',
            origin = js ''http://www.example.org'' \<rparr>
         (imgs (empty_page \<lparr> imgs := [icon_img, inline_img] \<rparr>)) inline_img
   \<and> or_js (src inline_img) (data_src inline_img) = Some (js ''pics/a.png'')
   \<and> spec_absolute_reference (js ''https:'') (js ''http://www.example.org'') (js ''pics/a.png'')
       = Some (js ''http://www.example.org/pics/a.png'')
   \<and> (\<exists>m. scrapeMetadataA sample_URL (js ''http://www.example.org/news'')
             (Response 200 (empty_page \<lparr> imgs := [icon_img, inline_img] \<rparr>)) = Inr m
          \<and> image_url m = js ''https://www.example.org/pics/a.png'')"
proof -
  let ?u = "js ''http://www.example.org/news''"
  let ?o = "\<lparr> protocol = js ''http:'', hostname = js ''www.example.org'',
              origin = js ''http://www.example.org'' \<rparr>"
  let ?p = "empty_page \<lparr> og_image := Some (js ''/img/i.png'') \<rparr>"
  let ?q = "empty_page \<lparr> imgs := [icon_img, inline_img] \<rparr>"
  have h1: "sample_URL ?u = Some ?o" by code_simp
  have h2: "response_ok 200" by (simp add: response_ok_def)
  have e: "extract_image ?p = js ''/img/i.png''" by code_simp
  then have h3: "extract_image ?p \<noteq> []" by (simp add: js_def)
  have sa: "spec_absolute_reference (js ''https:'') (js ''http://www.example.org'') (extract_image ?p)
              = Some (js ''http://www.example.org/img/i.png'')"
    by code_simp
  have sb: "spec_absolute_reference (js ''http:'') (js ''http://www.example.org'') (extract_image ?p)
              = Some (js ''http://www.example.org/img/i.png'')"
    by code_simp
  have t1: "to_https (js ''http://www.example.org/img/i.png'') = js ''https://www.example.org/img/i.png''"
    by code_simp
  have h4: "extract_image ?q = []" by code_simp
  have h5: "startsWith (js ''http://www.example.org'') (js ''http'')" by code_simp
  have k1: "imgs ?q = [icon_img] @ inline_img # []" by (simp add: empty_page_def)
  have k2: "list_all (\<lambda>i. image_candidate ?o i = None) [icon_img]" by code_simp
  have k3: "image_candidate ?o inline_img \<noteq> None" by code_simp
  have h6: "first_kept_image ?o (imgs ?q) inline_img"
    unfolding first_kept_image_def using k1 k2 k3 by blast
  have h7: "or_js (src inline_img) (data_src inline_img) = Some (js ''pics/a.png'')" by code_simp
  have sc: "spec_absolute_reference (js ''https:'') (js ''http://www.example.org'') (js ''pics/a.png'')
              = Some (js ''http://www.example.org/pics/a.png'')"
    by code_simp
  have t2: "to_https (js ''http://www.example.org/pics/a.png'') = js ''https://www.example.org/pics/a.png''"
    by code_simp
  have o: "origin ?o = js ''http://www.example.org''" and pr: "protocol ?o = js ''http:''"
    by simp_all
  note thm1 = image_reference_made_absolute[of sample_URL ?u ?o 200 ?p
      "js ''http://www.example.org/img/i.png''" "js ''http://www.example.org/img/i.png''",
      OF h1 h2, unfolded o pr t1]
  note thm2 = image_reference_made_absolute[of sample_URL ?u ?o 200 ?q _ _ inline_img
      "js ''pics/a.png''" "js ''http://www.example.org/pics/a.png''",
      OF h1 h2, unfolded o pr t2]
  have ra: "\<exists>m. scrapeMetadataA sample_URL ?u (Response 200 ?p) = Inr m
          \<and> image_url m = js ''https://www.example.org/img/i.png''"
    using thm1 h3 sa by blast
  have rb: "\<exists>m. scrapeMetadataB sample_URL ?u (Response 200 ?p) = Inr m
          \<and> image_url m = js ''http://www.example.org/img/i.png''"
    using thm1 h3 sb by blast
  have rc: "\<exists>m. scrapeMetadataA sample_URL ?u (Response 200 ?q) = Inr m
          \<and> image_url m = js ''https://www.example.org/pics/a.png''"
    using thm2 h4 h5 h6 h7 sc by blast
  show ?thesis
    by (intro conjI h1 h2 h3 sa sb ra rb h4 h5 h6 h7 sc rc)
qed

text \<open>
  Claim C7 as stated fails in the second version: on a page fetched over \<open>http\<close> a
  protocol-relative reference becomes an \<open>http://\<close> address, and an \<open>http://\<close> reference
  stays one.
\<close>

theorem image_protocol_counterexample:
  "scrapeMetadataB sample_URL (js ''http://www.example.org/news'')
       (Response 200 (empty_page \<lparr> og_image := Some (js ''//cdn.example.org/i.png'') \<rparr>))
     = Inr \<lparr> url = js ''http://www.example.org/news'', title = js ''www.example.org'',
             description = [], image_url = js ''http://cdn.example.org/i.png'',
             success = True \<rparr>
   \<and> scrapeMetadataB sample_URL (js ''http://www.example.org/news'')
       (Response 200 (empty_page \<lparr> og_image := Some (js ''http://cdn.example.org/i.png'') \<rparr>))
     = Inr \<lparr> url = js ''http://www.example.org/news'', title = js ''www.example.org'',
             description = [], image_url = js ''http://cdn.example.org/i.png'',
             success = True \<rparr>"
  by code_simp

text \<open>
  A relative reference that begins with the letters \<open>http\<close> is not joined to the origin
  in either version, although the comment of the code says the image address is made
  absolute if it is relative. The statement above says nothing about such a reference.
\<close>

lemma http_prefixed_reference_unjoined:
  "scrapeMetadataA sample_URL (js ''http://www.example.org/news'')
       (Response 200 (empty_page \<lparr> og_image := Some (js ''httpdocs/i.png'') \<rparr>))
     = Inr \<lparr> url = js ''http://www.example.org/news'', title = js ''www.example.org'',
             description = [], image_url = js ''httpdocs/i.png'', success = True \<rparr>
   \<and> scrapeMetadataB sample_URL (js ''http://www.example.org/news'')
       (Response 200 (empty_page \<lparr> og_image := Some (js ''httpdocs/i.png'') \<rparr>))
     = Inr \<lparr> url = js ''http://www.example.org/news'', title = js ''www.example.org'',
             description = [], image_url = js ''httpdocs/i.png'', success = True \<rparr>"
  by code_simp

section \<open>Properties of the fetch pass\<close>

lemma scrapeMetadataA_url: "scrapeMetadataA new_URL u outcome = Inr m \<Longrightarrow> url m = u"
  by (auto simp: scrapeMetadataA_def scrape_try_A_def scrape_catch_A_def Let_def
           split: sum.splits option.splits fetch_outcome.splits if_splits)

lemma scrapeMetadataB_url: "scrapeMetadataB new_URL u outcome = Inr m \<Longrightarrow> url m = u"
  by (auto simp: scrapeMetadataB_def scrape_try_B_def scrape_catch_B_def
           split: sum.splits option.splits fetch_outcome.splits if_splits)

lemma scrape_links_urls:
  assumes "\<And>u outcome m. scrape u outcome = Inr m \<Longrightarrow> url m = u"
  shows "scrape_links scrape net n acc us = Inr (ms, n') \<Longrightarrow> map url ms = map url acc @ us"
proof (induction us arbitrary: n acc)
  case Nil
  then show ?case by simp
next
  case (Cons u us)
  from Cons.prems obtain m where m: "scrape u (net n u) = Inr m"
    and rest: "scrape_links scrape net (Suc n) (acc @ [m]) us = Inr (ms, n')"
    by (auto split: sum.splits)
  from Cons.IH[OF rest] assms[OF m] show ?case by simp
qed

lemma fetch_pass_aligned:
  assumes "\<And>u outcome m. scrape u outcome = Inr m \<Longrightarrow> url m = u"
  shows "fetch_pass scrape net n cs = Inr fetched \<Longrightarrow> list_all2 aligned cs fetched"
proof (induction cs arbitrary: n fetched)
  case Nil
  then show ?case by simp
next
  case (Cons c cs)
  from Cons.prems obtain ms n' fs where
    ms: "scrape_links scrape net n [] (links c) = Inr (ms, n')"
    and fs: "fetch_pass scrape net n' cs = Inr fs"
    and f: "fetched = \<lparr> name = name c, slug = slug c, links = links c, metadata = ms \<rparr> # fs"
    by (auto split: sum.splits)
  have "map url ms = links c" using scrape_links_urls[OF assms ms] by simp
  moreover then have "length ms = length (links c)" by (metis length_map)
  ultimately show ?case using Cons.IH[OF fs] f by (simp add: aligned_def)
qed

lemma scrape_links_total:
  assumes "\<And>u outcome. u \<in> set us \<Longrightarrow> \<exists>m. scrape u outcome = Inr m"
  shows "\<exists>ms. scrape_links scrape net n acc us = Inr (ms, n + length us)"
  using assms
proof (induction us arbitrary: n acc)
  case Nil
  then show ?case by simp
next
  case (Cons u us)
  obtain m where m: "scrape u (net n u) = Inr m" using Cons.prems[of u] by auto
  have "\<exists>ms. scrape_links scrape net (Suc n) (acc @ [m]) us = Inr (ms, Suc n + length us)"
    using Cons.prems by (intro Cons.IH) auto
  with m show ?case by simp
qed

lemma fetch_pass_total:
  assumes "\<And>c u outcome. c \<in> set cs \<Longrightarrow> u \<in> set (links c) \<Longrightarrow> \<exists>m. scrape u outcome = Inr m"
  shows "\<exists>fetched. fetch_pass scrape net n cs = Inr fetched"
  using assms
proof (induction cs arbitrary: n)
  case Nil
  then show ?case by simp
next
  case (Cons c cs)
  obtain ms where ms: "scrape_links scrape net n [] (links c) = Inr (ms, n + length (links c))"
    using scrape_links_total[of "links c" scrape net n "[]"] Cons.prems[of c] by auto
  have "\<exists>fs. fetch_pass scrape net (n + length (links c)) cs = Inr fs"
    using Cons.prems by (intro Cons.IH) auto
  with ms show ?case by auto
qed

lemma encodeURIComponent_total:
  "no_surrogate s \<Longrightarrow> \<exists>r. encodeURIComponent s = Inr r"
proof (induction s)
  case Nil
  then show ?case by simp
next
  case (Cons c cs)
  then obtain r where r: "encodeURIComponent cs = Inr r" by (auto simp: no_surrogate_def)
  from Cons.prems have "c < 0xD800 \<or> 0xDFFF < c" by (simp add: no_surrogate_def)
  then have "(0xDC00 \<le> c \<and> c \<le> 0xDFFF) = False" and "(0xD800 \<le> c \<and> c \<le> 0xDBFF) = False"
    by (auto simp: word_le_nat_alt word_less_nat_alt)
  with r show ?case by (simp del: de_Morgan_conj)
qed

lemma set_replace_first_empty: "set (replace_first p [] s) \<subseteq> set s"
  by (induction s) (auto dest: in_set_dropD)

lemma placeholder_total:
  "no_surrogate h \<Longrightarrow> \<exists>i. placeholder_image (replace_first (js ''www.'') [] h) = Inr i"
proof -
  assume "no_surrogate h"
  then have "no_surrogate (replace_first (js ''www.'') [] h)"
    using set_replace_first_empty[of "js ''www.''" h]
    by (auto simp: no_surrogate_def list_all_iff)
  from encodeURIComponent_total[OF this] show ?thesis
    by (auto simp: placeholder_image_def)
qed

lemma scrapeMetadataA_total:
  assumes "new_URL u = Some urlObj" and "no_surrogate (hostname urlObj)"
  shows "\<exists>m. scrapeMetadataA new_URL u outcome = Inr m"
proof (cases "scrape_try_A new_URL u outcome")
  case (Inl e)
  from placeholder_total[OF assms(2)] obtain i where
    "placeholder_image (replace_first (js ''www.'') [] (hostname urlObj)) = Inr i" by blast
  with Inl assms(1) show ?thesis
    by (simp add: scrapeMetadataA_def scrape_catch_A_def Let_def)
next
  case (Inr m)
  then show ?thesis by (simp add: scrapeMetadataA_def)
qed

lemma scrapeMetadataB_total:
  assumes "new_URL u = Some urlObj"
  shows "\<exists>m. scrapeMetadataB new_URL u outcome = Inr m"
  using assms
  by (cases "scrape_try_B new_URL u outcome")
     (simp_all add: scrapeMetadataB_def scrape_catch_B_def)

text \<open>
  Whenever the fetch pass ends, every collection has its metadata array with exactly one
  record per link, in the order of the links; and the pass does end, whatever the outcome
  of each request, when every link is well formed.
\<close>

lemma fetch_pass_records_when_done:
  "(fetch_pass (scrapeMetadataA new_URL) net n cs = Inr fetched
      \<or> fetch_pass (scrapeMetadataB new_URL) net n cs = Inr fetched
    \<longrightarrow> list_all2 aligned cs fetched)
   \<and> (list_all (\<lambda>c. list_all (well_formed_link new_URL) (links c)) cs
    \<longrightarrow> (\<exists>fa. fetch_pass (scrapeMetadataA new_URL) net n cs = Inr fa)
        \<and> (\<exists>fb. fetch_pass (scrapeMetadataB new_URL) net n cs = Inr fb))"
proof (intro conjI impI)
  assume "fetch_pass (scrapeMetadataA new_URL) net n cs = Inr fetched
      \<or> fetch_pass (scrapeMetadataB new_URL) net n cs = Inr fetched"
  then show "list_all2 aligned cs fetched"
  proof
    assume "fetch_pass (scrapeMetadataA new_URL) net n cs = Inr fetched"
    then show ?thesis by (rule fetch_pass_aligned[rotated]) (rule scrapeMetadataA_url)
  next
    assume "fetch_pass (scrapeMetadataB new_URL) net n cs = Inr fetched"
    then show ?thesis by (rule fetch_pass_aligned[rotated]) (rule scrapeMetadataB_url)
  qed
next
  assume wf: "list_all (\<lambda>c. list_all (well_formed_link new_URL) (links c)) cs"
  have parsed: "\<exists>urlObj. new_URL u = Some urlObj \<and> no_surrogate (hostname urlObj)"
    if "c \<in> set cs" and "u \<in> set (links c)" for c u
  proof -
    from wf that have "well_formed_link new_URL u" by (auto simp: list_all_iff)
    then show ?thesis by (cases "new_URL u") (auto simp: well_formed_link_def)
  qed
  show "\<exists>fa. fetch_pass (scrapeMetadataA new_URL) net n cs = Inr fa"
  proof (rule fetch_pass_total)
    fix c u outcome assume "c \<in> set cs" and "u \<in> set (links c)"
    from parsed[OF this] show "\<exists>m. scrapeMetadataA new_URL u outcome = Inr m"
      using scrapeMetadataA_total[of new_URL u _ outcome] by blast
  qed
  show "\<exists>fb. fetch_pass (scrapeMetadataB new_URL) net n cs = Inr fb"
  proof (rule fetch_pass_total)
    fix c u outcome assume "c \<in> set cs" and "u \<in> set (links c)"
    from parsed[OF this] show "\<exists>m. scrapeMetadataB new_URL u outcome = Inr m"
      using scrapeMetadataB_total[of new_URL u _ outcome] by blast
  qed
qed

lemma fetch_pass_records_scenario:
  "list_all (\<lambda>c. list_all (well_formed_link sample_URL) (links c)) (parseLinksFile scenario_links)
   \<and> (\<exists>fa. fetch_pass (scrapeMetadataA sample_URL) sample_net 0 (parseLinksFile scenario_links)
              = Inr fa
           \<and> list_all2 aligned (parseLinksFile scenario_links) fa
           \<and> map (\<lambda>f. map success (metadata f)) fa = [[True], [False, True]])"
proof -
  let ?cs = "parseLinksFile scenario_links"
  have wf: "list_all (\<lambda>c. list_all (well_formed_link sample_URL) (links c)) ?cs"
    by code_simp
  from fetch_pass_records_when_done[of sample_URL sample_net 0 ?cs] wf
  obtain fa where fa: "fetch_pass (scrapeMetadataA sample_URL) sample_net 0 ?cs = Inr fa"
    by blast
  from fetch_pass_records_when_done[of sample_URL sample_net 0 ?cs fa] fa
  have al: "list_all2 aligned ?cs fa" by blast
  have "map_sum id (map (\<lambda>f. map success (metadata f)))
          (fetch_pass (scrapeMetadataA sample_URL) sample_net 0 ?cs) = Inr [[True], [False, True]]"
    by code_simp
  with fa have ms: "map (\<lambda>f. map success (metadata f)) fa = [[True], [False, True]]" by simp
  show ?thesis by (intro conjI exI[of _ fa] wf fa al ms)
qed

section \<open>Properties of the orchestrator\<close>

lemma parse_colliding:
  "parseLinksFile colliding_links =
     [\<lparr> name = js ''Tools'', slug = js ''tools'', links = [js ''https://a.com''] \<rparr>,
      \<lparr> name = js ''Tools!'', slug = js ''tools'', links = [js ''https://b.com''] \<rparr>]"
  by code_simp


lemma paths_distinct:
  "js ''links.md'' \<noteq> js ''src/style.css''" "js ''links.md'' \<noteq> js ''dist/index.html''"
  "js ''src/style.css'' \<noteq> js ''dist/index.html''"
  "page_path (js ''tools'') \<noteq> js ''src/style.css''"
  "page_path (js ''tools'') \<noteq> js ''links.md''"
  "page_path (js ''tools'') \<noteq> js ''dist/index.html''"
  "page_path (js ''tools'') = js ''dist/tools.html''"
  by (simp_all add: js_def page_path_def)




text \<open>
  Claim C3. After the fetch pass every collection has one metadata record per link, in
  the same position, so that every link gets a card in the rendered output even when
  some fetches fail. The code does not reach the rendering when a link is not a URL:
  for a \<open>links.md\<close> with the links \<open>https://a.com\<close> and \<open>http://\<close>, the first request
  answered and the second rejected, \<open>scrapeMetadata\<close> throws on the second link, the
  fetch pass and \<open>build\<close> end with that exception in both versions, and no page is
  written, so that neither link gets a card.
\<close>

theorem fetch_pass_aborts_on_invalid_url:
  "parseLinksFile aborting_links
     = [\<lparr> name = js ''T'', slug = js ''t'', links = [js ''https://a.com'', js ''http://''] \<rparr>]
   \<and> sample_net 0 (js ''https://a.com'') = Response 200 empty_page
   \<and> sample_net 1 (js ''http://'') = Rejected
   \<and> sample_URL (js ''http://'') = None
   \<and> fetch_pass (scrapeMetadataA sample_URL) sample_net 0 (parseLinksFile aborting_links)
       = Inl InvalidURL
   \<and> fetch_pass (scrapeMetadataB sample_URL) sample_net 0 (parseLinksFile aborting_links)
       = Inl InvalidURL
   \<and> buildA sample_URL [js ''links.md'' \<mapsto> aborting_links, js ''src/style.css'' \<mapsto> css] sample_net
       = Inl InvalidURL
   \<and> buildB sample_URL [js ''links.md'' \<mapsto> aborting_links, js ''src/style.css'' \<mapsto> css] sample_net
       = Inl InvalidURL"
proof -
  have 1: "parseLinksFile aborting_links
     = [\<lparr> name = js ''T'', slug = js ''t'', links = [js ''https://a.com'', js ''http://''] \<rparr>]"
    by code_simp
  have 2: "sample_net 0 (js ''https://a.com'') = Response 200 empty_page"
    by (simp add: sample_net_def)
  have 3: "sample_net 1 (js ''http://'') = Rejected" by (simp add: sample_net_def)
  have 4: "sample_URL (js ''http://'') = None" by (simp add: sample_URL_def js_def)
  have 5: "fetch_pass (scrapeMetadataA sample_URL) sample_net 0 (parseLinksFile aborting_links)
       = Inl InvalidURL"
    by code_simp
  have 6: "fetch_pass (scrapeMetadataB sample_URL) sample_net 0 (parseLinksFile aborting_links)
       = Inl InvalidURL"
    by code_simp
  have l: "[js ''links.md'' \<mapsto> aborting_links, js ''src/style.css'' \<mapsto> css] (js ''links.md'')
             = Some aborting_links"
    by (simp add: paths_distinct)
  have 7: "buildA sample_URL [js ''links.md'' \<mapsto> aborting_links, js ''src/style.css'' \<mapsto> css] sample_net
       = Inl InvalidURL"
    unfolding buildA_def build_with_def l option.case 5 sum.case by (rule refl)
  have 8: "buildB sample_URL [js ''links.md'' \<mapsto> aborting_links, js ''src/style.css'' \<mapsto> css] sample_net
       = Inl InvalidURL"
    unfolding buildB_def build_with_def l option.case 6 sum.case by (rule refl)
  show ?thesis by (intro conjI 1 2 3 4 5 6 7 8)
qed

section \<open>Properties of the page renderer\<close>

lemma includes_here: "str_includes (p @ b) p"
proof (cases "p @ b")
  case Nil
  then show ?thesis by simp
next
  case (Cons x xs)
  have "startsWith (p @ b) p" by (simp add: startsWith_def)
  with Cons show ?thesis by simp
qed

lemma includes_later: "str_includes s p \<Longrightarrow> str_includes (a @ s) p"
  by (induction a) auto

lemma includes_split: "str_includes s p \<Longrightarrow> \<exists>a b. s = a @ p @ b"
proof (induction s)
  case Nil
  then show ?case by simp
next
  case (Cons c cs)
  from Cons.prems have "startsWith (c # cs) p \<or> str_includes cs p" by simp
  then show ?case
  proof
    assume "startsWith (c # cs) p"
    then have "c # cs = [] @ p @ drop (length p) (c # cs)"
      unfolding startsWith_def by (metis append_Nil append_take_drop_id)
    then show ?thesis by blast
  next
    assume "str_includes cs p"
    from Cons.IH[OF this] obtain a b where "cs = a @ p @ b" by blast
    then have "c # cs = (c # a) @ p @ b" by simp
    then show ?thesis by blast
  qed
qed

lemma includes_earlier: "str_includes s p \<Longrightarrow> str_includes (s @ t) p"
proof -
  assume "str_includes s p"
  from includes_split[OF this] obtain a b where "s = a @ p @ b" by blast
  then have "s @ t = a @ p @ (b @ t)" by simp
  then show ?thesis using includes_later[OF includes_here] by metis
qed

lemma includes_if:
  "c \<Longrightarrow> str_includes x p \<Longrightarrow> str_includes ((if c then x else y) @ t) p"
  by (simp add: includes_earlier)

lemma includes_cards:
  assumes "m \<in> set ms" and "str_includes (f m) p"
  shows "str_includes (concat (map f ms) @ t) p"
proof -
  from assms(1) obtain xs ys where "ms = xs @ m # ys" by (meson split_list)
  then have "concat (map f ms) @ t = concat (map f xs) @ f m @ (concat (map f ys) @ t)"
    by simp
  then show ?thesis using includes_later[OF includes_earlier[OF assms(2)]] by metis
qed

lemma card_A_includes_image: "str_includes (card_A m) (image_url m)"
  unfolding card_A_def by (rule includes_here | rule includes_later)+

lemma card_B_includes_image:
  assumes "image_url m \<noteq> []"
  shows "str_includes (card_B m) (image_url m)"
  unfolding card_B_def
  by (rule includes_if[OF assms] | rule includes_here | rule includes_later)+

lemma page_A_includes_name: "str_includes (generateCollectionPageA c ms) (name c)"
  unfolding generateCollectionPageA_def Let_def
  by (rule includes_here | rule includes_later)+

lemma page_B_includes_name: "str_includes (generateCollectionPageB c ms) (name c)"
  unfolding generateCollectionPageB_def Let_def
  by (rule includes_here | rule includes_later)+

lemma page_A_includes_image:
  assumes "m \<in> set ms"
  shows "str_includes (generateCollectionPageA c ms) (image_url m)"
  unfolding generateCollectionPageA_def Let_def
  by (rule includes_cards[of m ms card_A, OF assms card_A_includes_image] | rule includes_later)+

lemma page_B_includes_image:
  assumes "m \<in> set ms" and "image_url m \<noteq> []"
  shows "str_includes (generateCollectionPageB c ms) (image_url m)"
  unfolding generateCollectionPageB_def Let_def
  by (rule includes_cards[of m ms card_B, OF assms(1) card_B_includes_image[OF assms(2)]]
      | rule includes_later)+

text \<open>
  Claim C1. The collection page escapes every interpolated text, so that no string with
  \<open><script>\<close> appears in the markup as it is. The code escapes the title, the
  description and the displayed address, and leaves the collection name, the \<open>href\<close> and
  the image address as they are: the heading \<open># <script>\<close> gives a page with
  \<open><script>\<close> in its \<open>title\<close> and \<open>h1\<close> elements, and an \<open>og:image\<close> address that holds
  \<open><script>\<close> goes through \<open>scrapeMetadata\<close> unchanged and into the card, in both
  versions.
\<close>

theorem collection_page_unescaped_markup:
  "parseLinksFile (js ''# <script>'')
     = [\<lparr> name = js ''<script>'', slug = js ''script'', links = [] \<rparr>]
   \<and> str_includes
         (generateCollectionPageA \<lparr> name = js ''<script>'', slug = js ''script'', links = [] \<rparr> [])
         (js ''<script>'')
   \<and> str_includes
         (generateCollectionPageB \<lparr> name = js ''<script>'', slug = js ''script'', links = [] \<rparr> [])
         (js ''<script>'')
   \<and> scrapeMetadataA sample_URL (js ''https://example.com'')
         (Response 200 (empty_page \<lparr> og_title := Some (js ''Example''),
                                      og_image := Some (js ''https://example.com/<script>'') \<rparr>))
       = Inr \<lparr> url = js ''https://example.com'', title = js ''Example'', description = [],
               image_url = js ''https://example.com/<script>'', success = True \<rparr>
   \<and> scrapeMetadataB sample_URL (js ''https://example.com'')
         (Response 200 (empty_page \<lparr> og_title := Some (js ''Example''),
                                      og_image := Some (js ''https://example.com/<script>'') \<rparr>))
       = Inr \<lparr> url = js ''https://example.com'', title = js ''Example'', description = [],
               image_url = js ''https://example.com/<script>'', success = True \<rparr>
   \<and> str_includes
         (generateCollectionPageA
            \<lparr> name = js ''Tools'', slug = js ''tools'', links = [js ''https://example.com''] \<rparr>
            [\<lparr> url = js ''https://example.com'', title = js ''Example'', description = [],
                image_url = js ''https://example.com/<script>'', success = True \<rparr>])
         (js ''https://example.com/<script>'')
   \<and> str_includes
         (generateCollectionPageB
            \<lparr> name = js ''Tools'', slug = js ''tools'', links = [js ''https://example.com''] \<rparr>
            [\<lparr> url = js ''https://example.com'', title = js ''Example'', description = [],
                image_url = js ''https://example.com/<script>'', success = True \<rparr>])
         (js ''https://example.com/<script>'')"
proof -
  let ?c = "\<lparr> name = js ''<script>'', slug = js ''script'', links = [] \<rparr>"
  let ?t = "\<lparr> name = js ''Tools'', slug = js ''tools'', links = [js ''https://example.com''] \<rparr>"
  let ?m = "\<lparr> url = js ''https://example.com'', title = js ''Example'', description = [],
                image_url = js ''https://example.com/<script>'', success = True \<rparr>"
  have 1: "parseLinksFile (js ''# <script>'') = [?c]" by code_simp
  have 2: "str_includes (generateCollectionPageA ?c []) (js ''<script>'')"
    using page_A_includes_name[of ?c "[]"] by simp
  have 3: "str_includes (generateCollectionPageB ?c []) (js ''<script>'')"
    using page_B_includes_name[of ?c "[]"] by simp
  have 4: "scrapeMetadataA sample_URL (js ''https://example.com'')
         (Response 200 (empty_page \<lparr> og_title := Some (js ''Example''),
                                      og_image := Some (js ''https://example.com/<script>'') \<rparr>))
       = Inr ?m"
    by code_simp
  have 5: "scrapeMetadataB sample_URL (js ''https://example.com'')
         (Response 200 (empty_page \<lparr> og_title := Some (js ''Example''),
                                      og_image := Some (js ''https://example.com/<script>'') \<rparr>))
       = Inr ?m"
    by code_simp
  have ne: "image_url ?m \<noteq> []" by (simp add: js_def)
  have 6: "str_includes (generateCollectionPageA ?t [?m]) (js ''https://example.com/<script>'')"
    using page_A_includes_image[of ?m "[?m]" ?t] by simp
  have 7: "str_includes (generateCollectionPageB ?t [?m]) (js ''https://example.com/<script>'')"
    using page_B_includes_image[of ?m "[?m]" ?t] ne by simp
  from 1 2 3 4 5 6 7 show ?thesis by (intro conjI)
qed

end
